theory Spec2Isabelle
  imports Main "HOL-Library.Word"
begin

section \<open>Bytes, native 64-bit integers and the container signature\<close>

text \<open>
  The program is \<^verbatim>\<open>src/LlmCompressor/main.cpp\<close>: the command-line layer of the
  \<^verbatim>\<open>.safetensors\<close> / \<^verbatim>\<open>.kang\<close> converter. A \<^verbatim>\<open>char\<close> buffer is a list of
  8-bit words, \<^verbatim>\<open>uint64_t\<close> and \<^verbatim>\<open>size_t\<close> are 64-bit words (LP64/LLP64 targets).
  The program copies integers to and from files in native byte order; the model fixes
  little-endian, the byte order of the x86-64 and AArch64 hosts the program is built for.
\<close>

type_synonym byte = "8 word"
type_synonym bytes = "byte list"
type_synonym u64 = "64 word"

fun le_bytes :: "nat \<Rightarrow> nat \<Rightarrow> bytes" where
  "le_bytes 0 v = []"
| "le_bytes (Suc n) v = of_nat (v mod 256) # le_bytes n (v div 256)"

fun le_value :: "bytes \<Rightarrow> nat" where
  "le_value [] = 0"
| "le_value (b # bs) = unat b + 256 * le_value bs"

text \<open>\<^verbatim>\<open>write(reinterpret_cast<const char*>(&v), sizeof(v))\<close> for a \<^verbatim>\<open>uint64_t v\<close>.\<close>

definition u64_bytes :: "u64 \<Rightarrow> bytes" where
  "u64_bytes w = le_bytes 8 (unat w)"

text \<open>\<^verbatim>\<open>memcpy(&v, p, 8)\<close> and \<^verbatim>\<open>read(reinterpret_cast<char*>(&v), 8)\<close>.\<close>

definition bytes_u64 :: "bytes \<Rightarrow> u64" where
  "bytes_u64 bs = of_nat (le_value bs)"

text \<open>\<^verbatim>\<open>const std::string KANG_SIGNATURE = "KANGCOMP";\<close>\<close>

definition KANG_SIGNATURE :: bytes where
  "KANG_SIGNATURE = [0x4B, 0x41, 0x4E, 0x47, 0x43, 0x4F, 0x4D, 0x50]"

section \<open>The environment: file system, allocation, engine\<close>

text \<open>
  Every early \<^verbatim>\<open>return\<close> of the two handlers is one constructor, named after the
  message the handler prints before it. The last two are not returns: they are exceptions
  that nothing in \<^verbatim>\<open>main\<close> catches (\<^verbatim>\<open>main\<close> catches \<^verbatim>\<open>fs::filesystem_error\<close> only),
  so the process ends in \<^verbatim>\<open>std::terminate\<close>.
\<close>

datatype error =
    CannotOpenInput
  | TooSmall
  | HeaderSizeMismatch
  | CompressionFailed
  | CannotCreateOutput
  | InvalidSignature
  | ErrorReadingHeaderSize
  | ErrorReadingCompressedHeader
  | ErrorReadingNumChunks
  | ErrorReadingChunkInfo
  | InvalidFileOffsets
  | ErrorReadingTensorPayload
  | DecompressionFailed
  | UncaughtAllocation
  | UncaughtStringRange

fun uncaught :: "error \<Rightarrow> bool" where
  "uncaught UncaughtAllocation = True"
| "uncaught UncaughtStringRange = True"
| "uncaught _ = False"

text \<open>
  The errors the handlers print for a stream that is not a well-formed container (the
  specification's FormatError), as opposed to a failure of the engine call.
\<close>

fun format_error :: "error \<Rightarrow> bool" where
  "format_error InvalidSignature = True"
| "format_error ErrorReadingHeaderSize = True"
| "format_error ErrorReadingCompressedHeader = True"
| "format_error ErrorReadingNumChunks = True"
| "format_error ErrorReadingChunkInfo = True"
| "format_error InvalidFileOffsets = True"
| "format_error ErrorReadingTensorPayload = True"
| "format_error _ = False"

datatype file_status = NotFound | Regular | Directory | Other

text \<open>
  What the program sees of the file system through \<^verbatim>\<open>std::filesystem\<close> and the file
  streams. \<open>status\<close> answers \<^verbatim>\<open>is_directory\<close>, \<^verbatim>\<open>is_regular_file\<close> and \<^verbatim>\<open>exists\<close>
  (\<open>None\<close>: the query throws \<^verbatim>\<open>filesystem_error\<close>); \<open>readable p\<close> is the content an
  \<^verbatim>\<open>ifstream\<close> on \<open>p\<close> delivers (\<open>None\<close>: it cannot be opened); \<open>creatable p\<close> says
  whether an \<^verbatim>\<open>ofstream\<close> on \<open>p\<close> opens; \<open>entries\<close> is the directory iteration;
  \<open>extension\<close> and \<open>target\<close> stand for the path algebra of the library
  (\<^verbatim>\<open>p.extension()\<close> and \<^verbatim>\<open>out / p.filename().replace_extension(ext)\<close>).
  Writes to an open \<^verbatim>\<open>ofstream\<close> are taken to succeed, as the program itself takes them
  (it never tests the stream after \<^verbatim>\<open>write\<close>). Console output is not modelled.
\<close>

record filesystem =
  status :: "string \<Rightarrow> file_status option"
  readable :: "string \<Rightarrow> bytes option"
  creatable :: "string \<Rightarrow> bool"
  entries :: "string \<Rightarrow> string list option"
  mkdirs :: "string \<Rightarrow> bool"
  extension :: "string \<Rightarrow> string"
  target :: "string \<Rightarrow> string \<Rightarrow> string \<Rightarrow> string"

definition write_file :: "filesystem \<Rightarrow> string \<Rightarrow> bytes \<Rightarrow> filesystem" where
  "write_file fs p bs =
     fs\<lparr>status := (status fs)(p := Some Regular), readable := (readable fs)(p := Some bs)\<rparr>"

text \<open>
  \<^verbatim>\<open>struct CompressionResult\<close> of \<^verbatim>\<open>compressor.cuh\<close>, with the three members
  \<^verbatim>\<open>main.cpp\<close> reads; \<^verbatim>\<open>chunk_info\<close> is a vector of \<^verbatim>\<open>(original, compressed)\<close>
  \<^verbatim>\<open>size_t\<close> pairs.
\<close>

record CompressionResult =
  compressed_header :: bytes
  compressed_tensors :: bytes
  chunk_info :: "(u64 \<times> u64) list"

text \<open>
  The two engine entry points \<^verbatim>\<open>main.cpp\<close> calls, declared in \<^verbatim>\<open>compressor.cuh\<close>.
  For the handlers they are parameters; both return \<^verbatim>\<open>bool\<close> and fill output
  parameters, which is an \<open>option\<close> here. \<open>max_alloc\<close> is the largest number of bytes one container of the
  standard library can be asked to hold: a \<^verbatim>\<open>vector\<close> constructor, \<^verbatim>\<open>resize\<close> or
  \<^verbatim>\<open>reserve\<close> beyond it throws \<^verbatim>\<open>std::length_error\<close> or \<^verbatim>\<open>std::bad_alloc\<close>.
\<close>

record environment =
  compress_safetensor :: "bytes \<Rightarrow> bytes \<Rightarrow> int \<Rightarrow> CompressionResult option"
  decompress_kang :: "bytes \<Rightarrow> bytes \<Rightarrow> (u64 \<times> u64) list \<Rightarrow> (bytes \<times> bytes) option"
  max_alloc :: nat

section \<open>handle\_compression\<close>

text \<open>
  \<^verbatim>\<open>read_all\<close>: \<open>Inr None\<close> is the \<^verbatim>\<open>false\<close> result (the file cannot be opened);
  \<^verbatim>\<open>buffer.resize(sz)\<close> throws when the file is larger than can be allocated.
\<close>

definition read_all :: "environment \<Rightarrow> filesystem \<Rightarrow> string \<Rightarrow> error + bytes option" where
  "read_all env fs path =
     (case readable fs path of
        None \<Rightarrow> Inr None
      | Some content \<Rightarrow>
          if max_alloc env < length content then Inl UncaughtAllocation
          else Inr (Some content))"

text \<open>
  Step 2 of \<^verbatim>\<open>handle_compression\<close>: the length prefix and the two slices. The test
  \<^verbatim>\<open>file_buffer.size() < 8 + header_len\<close> is unsigned 64-bit arithmetic, so the sum
  wraps. When it wraps, the range \<^verbatim>\<open>[data + 8, data + 8 + header_len)\<close> handed to the
  \<^verbatim>\<open>std::string\<close> constructor ends before it begins; the constructor then sees a
  distance beyond \<^verbatim>\<open>max_size()\<close> and throws \<^verbatim>\<open>std::length_error\<close>.
\<close>

definition header_size_mismatch :: "bytes \<Rightarrow> u64 \<Rightarrow> bool" where
  "header_size_mismatch file_buffer header_len \<longleftrightarrow>
     (of_nat (length file_buffer) :: u64) < 8 + header_len"

definition split_safetensors :: "bytes \<Rightarrow> error + bytes \<times> bytes" where
  "split_safetensors file_buffer =
     (if length file_buffer < 8 then Inl TooSmall
      else
        let header_len = bytes_u64 (take 8 file_buffer) in
        if header_size_mismatch file_buffer header_len then Inl HeaderSizeMismatch
        else if 8 + header_len < 8 then Inl UncaughtStringRange
        else
          let json_header = take (unat header_len) (drop 8 file_buffer);
              tensor_data = drop (8 + unat header_len) file_buffer
          in Inr (json_header, tensor_data))"

text \<open>Step 4: the writes to the output stream, in program order.\<close>

fun write_chunk_info :: "bytes \<Rightarrow> (u64 \<times> u64) list \<Rightarrow> bytes" where
  "write_chunk_info out_file [] = out_file"
| "write_chunk_info out_file ((orig, cmp) # rest) =
     write_chunk_info (out_file @ u64_bytes orig @ u64_bytes cmp) rest"

definition write_kang :: "CompressionResult \<Rightarrow> bytes" where
  "write_kang comp_result =
     (let out_file = KANG_SIGNATURE;
          compressed_header_size = (of_nat (length (compressed_header comp_result)) :: u64);
          out_file = out_file @ u64_bytes compressed_header_size;
          out_file = out_file @ compressed_header comp_result;
          num_chunks = (of_nat (length (chunk_info comp_result)) :: u64);
          out_file = out_file @ u64_bytes num_chunks;
          out_file = write_chunk_info out_file (chunk_info comp_result)
      in if compressed_tensors comp_result \<noteq> []
         then out_file @ compressed_tensors comp_result else out_file)"

definition handle_compression ::
  "environment \<Rightarrow> filesystem \<Rightarrow> string \<Rightarrow> string \<Rightarrow> int \<Rightarrow> (error + unit) \<times> filesystem" where
  "handle_compression env fs input_path output_path compression_level =
     (case read_all env fs input_path of
        Inl e \<Rightarrow> (Inl e, fs)
      | Inr None \<Rightarrow> (Inl CannotOpenInput, fs)
      | Inr (Some file_buffer) \<Rightarrow>
          (case split_safetensors file_buffer of
             Inl e \<Rightarrow> (Inl e, fs)
           | Inr (json_header, tensor_data) \<Rightarrow>
               (case compress_safetensor env json_header tensor_data compression_level of
                  None \<Rightarrow> (Inl CompressionFailed, fs)
                | Some comp_result \<Rightarrow>
                    if \<not> creatable fs output_path then (Inl CannotCreateOutput, fs)
                    else (Inr (), write_file fs output_path (write_kang comp_result)))))"

section \<open>handle\_decompression\<close>

text \<open>
  The input stream: the file's bytes and the read position. \<open>read n\<close> is
  \<^verbatim>\<open>in_file.read(p, n)\<close> followed by the test \<^verbatim>\<open>in_file.good()\<close> that the program makes
  after every read: \<open>None\<close> when fewer than \<open>n\<close> bytes are left (the stream sets
  \<^verbatim>\<open>failbit\<close> and \<^verbatim>\<open>eofbit\<close>), the bytes and the advanced stream otherwise.
\<close>

record istream =
  buf :: bytes
  pos :: nat

definition read :: "nat \<Rightarrow> istream \<Rightarrow> (bytes \<times> istream) option" where
  "read n s =
     (if pos s + n \<le> length (buf s)
      then Some (take n (drop (pos s) (buf s)), s\<lparr>pos := pos s + n\<rparr>)
      else None)"

text \<open>The lambda \<^verbatim>\<open>read_u64\<close>.\<close>

definition read_u64 :: "istream \<Rightarrow> (u64 \<times> istream) option" where
  "read_u64 s = (case read 8 s of None \<Rightarrow> None | Some (bs, s') \<Rightarrow> Some (bytes_u64 bs, s'))"

text \<open>
  The loop \<^verbatim>\<open>for (uint64_t i = 0; i < num_chunks_u64; ++i)\<close>: the first argument counts
  the iterations left, \<open>chunk_info\<close> is the vector built so far.
\<close>

fun read_chunk_info ::
  "nat \<Rightarrow> istream \<Rightarrow> (u64 \<times> u64) list \<Rightarrow> ((u64 \<times> u64) list \<times> istream) option" where
  "read_chunk_info 0 s chunk_info' = Some (chunk_info', s)"
| "read_chunk_info (Suc n) s chunk_info' =
     (case read_u64 s of
        None \<Rightarrow> None
      | Some (orig, s1) \<Rightarrow>
          (case read_u64 s1 of
             None \<Rightarrow> None
           | Some (cmp, s2) \<Rightarrow> read_chunk_info n s2 (chunk_info' @ [(orig, cmp)])))"

text \<open>
  Not part of the program: the \<open>n\<close> size pairs stored at the front of a byte sequence,
  used to say in closed form what the loop above delivers.
\<close>

fun table_at :: "nat \<Rightarrow> bytes \<Rightarrow> (u64 \<times> u64) list" where
  "table_at 0 bs = []"
| "table_at (Suc n) bs =
     (bytes_u64 (take 8 bs), bytes_u64 (take 8 (drop 8 bs))) # table_at n (drop 16 bs)"

text \<open>
  The block that reads "all remaining bytes at once": \<^verbatim>\<open>tellg\<close>, \<^verbatim>\<open>seekg\<close> to the end,
  \<^verbatim>\<open>tellg\<close> again, \<^verbatim>\<open>resize\<close>, \<^verbatim>\<open>seekg\<close> back and \<^verbatim>\<open>read\<close>.
\<close>

definition read_remaining :: "environment \<Rightarrow> istream \<Rightarrow> error + bytes" where
  "read_remaining env s =
     (let cur = int (pos s); end = int (length (buf s)) in
      if cur < 0 \<or> end < cur then Inl InvalidFileOffsets
      else
        let remain = nat (end - cur) in
        if max_alloc env < remain then Inl UncaughtAllocation
        else (case read remain s of
                None \<Rightarrow> Inl ErrorReadingTensorPayload
              | Some (compressed_tensors', s') \<Rightarrow> Inr compressed_tensors'))"

text \<open>
  The parsing part of \<^verbatim>\<open>handle_decompression\<close>, from the signature to the payload,
  statement by statement. The vector \<^verbatim>\<open>compressed_header(compressed_header_size)\<close> is
  constructed, and \<^verbatim>\<open>chunk_info.reserve(num_chunks_u64)\<close> is called (16 bytes per
  pair), before anything has been read into them.
\<close>

definition parse_kang ::
  "environment \<Rightarrow> bytes \<Rightarrow> error + bytes \<times> bytes \<times> (u64 \<times> u64) list" where
  "parse_kang env content =
     (case read (length KANG_SIGNATURE) \<lparr>buf = content, pos = 0\<rparr> of
        None \<Rightarrow> Inl InvalidSignature
      | Some (signature_buf, s1) \<Rightarrow>
          if signature_buf \<noteq> KANG_SIGNATURE then Inl InvalidSignature
          else
            (case read_u64 s1 of
               None \<Rightarrow> Inl ErrorReadingHeaderSize
             | Some (compressed_header_size, s2) \<Rightarrow>
                 if max_alloc env < unat compressed_header_size then Inl UncaughtAllocation
                 else
                   (case read (unat compressed_header_size) s2 of
                      None \<Rightarrow> Inl ErrorReadingCompressedHeader
                    | Some (compressed_header', s3) \<Rightarrow>
                        (case read_u64 s3 of
                           None \<Rightarrow> Inl ErrorReadingNumChunks
                         | Some (num_chunks_u64, s4) \<Rightarrow>
                             if max_alloc env < 16 * unat num_chunks_u64 then Inl UncaughtAllocation
                             else
                               (case read_chunk_info (unat num_chunks_u64) s4 [] of
                                  None \<Rightarrow> Inl ErrorReadingChunkInfo
                                | Some (chunk_info', s5) \<Rightarrow>
                                    (case read_remaining env s5 of
                                       Inl e \<Rightarrow> Inl e
                                     | Inr compressed_tensors' \<Rightarrow>
                                         Inr (compressed_header', compressed_tensors', chunk_info')))))))"

text \<open>The bytes written to the output file after a successful engine call.\<close>

definition write_safetensors :: "bytes \<Rightarrow> bytes \<Rightarrow> bytes" where
  "write_safetensors json_header tensor_data =
     (let header_len = (of_nat (length json_header) :: u64);
          out_file = u64_bytes header_len;
          out_file = out_file @ json_header
      in if tensor_data \<noteq> [] then out_file @ tensor_data else out_file)"

definition handle_decompression ::
  "environment \<Rightarrow> filesystem \<Rightarrow> string \<Rightarrow> string \<Rightarrow> (error + unit) \<times> filesystem" where
  "handle_decompression env fs input_path output_path =
     (case readable fs input_path of
        None \<Rightarrow> (Inl CannotOpenInput, fs)
      | Some content \<Rightarrow>
          (case parse_kang env content of
             Inl e \<Rightarrow> (Inl e, fs)
           | Inr (compressed_header', compressed_tensors', chunk_info') \<Rightarrow>
               (case decompress_kang env compressed_header' compressed_tensors' chunk_info' of
                  None \<Rightarrow> (Inl DecompressionFailed, fs)
                | Some (json_header, tensor_data) \<Rightarrow>
                    if \<not> creatable fs output_path then (Inl CannotCreateOutput, fs)
                    else (Inr (), write_file fs output_path
                                    (write_safetensors json_header tensor_data)))))"

section \<open>main\<close>

text \<open>
  \<^verbatim>\<open>std::stoi\<close> as the standard library defines it through \<^verbatim>\<open>strtol\<close> in base 10:
  leading white space is skipped, one sign is accepted, the longest run of digits is
  converted and whatever follows is ignored. \<open>None\<close> stands for the two exceptions,
  \<^verbatim>\<open>std::invalid_argument\<close> (no digits) and \<^verbatim>\<open>std::out_of_range\<close> (not an \<^verbatim>\<open>int\<close>).
\<close>

definition isspace :: "char \<Rightarrow> bool" where
  "isspace c \<longleftrightarrow> c \<in> set [CHR '' '', CHR 0x09, CHR 0x0A, CHR 0x0B, CHR 0x0C, CHR 0x0D]"

definition isdigit :: "char \<Rightarrow> bool" where
  "isdigit c \<longleftrightarrow> (48::nat) \<le> of_char c \<and> of_char c \<le> (57::nat)"

definition digits_value :: "string \<Rightarrow> int" where
  "digits_value ds = foldl (\<lambda>a c. 10 * a + (int (of_char c) - 48)) 0 ds"

definition stoi :: "string \<Rightarrow> int option" where
  "stoi str =
     (let s1 = dropWhile isspace str;
          negative = (s1 \<noteq> [] \<and> hd s1 = CHR ''-'');
          s2 = (if s1 \<noteq> [] \<and> (hd s1 = CHR ''-'' \<or> hd s1 = CHR ''+'') then tl s1 else s1);
          ds = takeWhile isdigit s2
      in if ds = [] then None
         else
           let v = (if negative then - digits_value ds else digits_value ds) in
           if v < - (2 ^ 31) \<or> 2 ^ 31 - 1 < v then None else Some v)"

text \<open>
  How the process ends: \<^verbatim>\<open>main\<close> returns a status, or an exception nobody catches
  reaches \<^verbatim>\<open>std::terminate\<close>.
\<close>

datatype exit_status = Returned int | Terminated

text \<open>
  The option parsing of \<^verbatim>\<open>main\<close>, where \<open>args\<close> is \<^verbatim>\<open>argv + 1 .. argv + argc\<close>:
  the compression level (default 10) and \<^verbatim>\<open>path_arg_index\<close>, or an early
  \<^verbatim>\<open>return 1\<close>.
\<close>

definition parse_options :: "string list \<Rightarrow> exit_status + int \<times> nat" where
  "parse_options args =
     (let command = args ! 0 in
      if command = ''compress'' \<and> 3 < length args then
        if args ! 1 = ''-l'' \<or> args ! 1 = ''--level'' then
          if length args < 5 then Inl (Returned 1)
          else (case stoi (args ! 2) of
                  None \<Rightarrow> Inl (Returned 1)
                | Some compression_level \<Rightarrow> Inr (compression_level, 3))
        else Inr (10, 1)
      else Inr (10, 1))"

text \<open>
  A handler returns \<^verbatim>\<open>void\<close>: when it comes back, with or without an error message,
  \<^verbatim>\<open>main\<close> goes on. Only an uncaught exception ends the process from inside it.
\<close>

definition after_handler :: "(error + unit) \<times> filesystem \<Rightarrow> exit_status option \<times> filesystem" where
  "after_handler r =
     (case fst r of
        Inl e \<Rightarrow> if uncaught e then (Some Terminated, snd r) else (None, snd r)
      | Inr u \<Rightarrow> (None, snd r))"

text \<open>
  One of the two batch loops over a directory: \<open>ext\<close> is the extension selected,
  \<open>new_ext\<close> the one given to the output file. \<open>Some st\<close> means the loop was left with
  status \<open>st\<close> (a \<^verbatim>\<open>filesystem_error\<close> caught by \<^verbatim>\<open>main\<close>, or termination).
\<close>

fun batch ::
  "(filesystem \<Rightarrow> string \<Rightarrow> string \<Rightarrow> (error + unit) \<times> filesystem) \<Rightarrow> string \<Rightarrow> string \<Rightarrow>
     string \<Rightarrow> string list \<Rightarrow> filesystem \<Rightarrow> exit_status option \<times> filesystem" where
  "batch handler ext new_ext output_path [] fs = (None, fs)"
| "batch handler ext new_ext output_path (entry # rest) fs =
     (case status fs entry of
        None \<Rightarrow> (Some (Returned 1), fs)
      | Some st \<Rightarrow>
          if st = Regular \<and> extension fs entry = ext then
            (case after_handler (handler fs entry (target fs output_path entry new_ext)) of
               (Some e, fs') \<Rightarrow> (Some e, fs')
             | (None, fs') \<Rightarrow> batch handler ext new_ext output_path rest fs')
          else batch handler ext new_ext output_path rest fs)"

definition prepare_output_dir :: "filesystem \<Rightarrow> string \<Rightarrow> filesystem option" where
  "prepare_output_dir fs output_path =
     (case status fs output_path of
        None \<Rightarrow> None
      | Some st \<Rightarrow>
          if st = NotFound then
            (if mkdirs fs output_path
             then Some (fs\<lparr>status := (status fs)(output_path := Some Directory)\<rparr>)
             else None)
          else Some fs)"

definition finish :: "exit_status option \<times> filesystem \<Rightarrow> exit_status \<times> filesystem" where
  "finish r = (case fst r of Some st \<Rightarrow> (st, snd r) | None \<Rightarrow> (Returned 0, snd r))"

definition main :: "environment \<Rightarrow> filesystem \<Rightarrow> string list \<Rightarrow> exit_status \<times> filesystem" where
  "main env fs args =
     (if length args + 1 < 3 then (Returned 1, fs)
      else
        let command = args ! 0 in
        (case parse_options args of
           Inl st \<Rightarrow> (st, fs)
         | Inr (compression_level, path_arg_index) \<Rightarrow>
             if length args < path_arg_index + 2 then (Returned 1, fs)
             else
               let input_path = args ! path_arg_index;
                   output_path = args ! (path_arg_index + 1)
               in
               (case status fs input_path of
                  None \<Rightarrow> (Returned 1, fs)
                | Some st \<Rightarrow>
                    if st = Directory then
                      (case prepare_output_dir fs output_path of
                         None \<Rightarrow> (Returned 1, fs)
                       | Some fs1 \<Rightarrow>
                           if command = ''compress'' then
                             (case entries fs1 input_path of
                                None \<Rightarrow> (Returned 1, fs1)
                              | Some es \<Rightarrow>
                                  finish (batch (\<lambda>f i out. handle_compression env f i out compression_level)
                                            ''.safetensors'' ''.kang'' output_path es fs1))
                           else if command = ''decompress'' then
                             (case entries fs1 input_path of
                                None \<Rightarrow> (Returned 1, fs1)
                              | Some es \<Rightarrow>
                                  finish (batch (handle_decompression env)
                                            ''.kang'' ''.safetensors'' output_path es fs1))
                           else (Returned 1, fs1))
                    else if st = Regular then
                      if command = ''compress'' then
                        finish (after_handler
                                  (handle_compression env fs input_path output_path compression_level))
                      else if command = ''decompress'' then
                        finish (after_handler (handle_decompression env fs input_path output_path))
                      else (Returned 1, fs)
                    else (Returned 1, fs))))"

section \<open>The engine behind \<^verbatim>\<open>compressor.cuh\<close>\<close>

text \<open>
  Modelled from the spec: the lossless byte compressor the engine calls per chunk and for
  the metadata block ("a pluggable capability: lossless byte compressor with tunable
  effort"). It is a parameter; a theorem that needs it to be lossless says so.
\<close>

record codec =
  encode :: "int \<Rightarrow> bytes \<Rightarrow> bytes option"
  decode :: "bytes \<Rightarrow> bytes option"

text \<open>
  Modelled from the spec: the Chunk Planner (section 4.2) with a fixed target size: ordered
  \<open>(offset, length)\<close> ranges that cover the payload without gaps, the last one possibly
  shorter; an empty payload has no chunk. The planner is given a positive target; the
  test for 0 only makes the recursion total.
\<close>

function plan_chunks :: "nat \<Rightarrow> nat \<Rightarrow> nat \<Rightarrow> (nat \<times> nat) list" where
  "plan_chunks chunk_size offset remaining =
     (if remaining = 0 \<or> chunk_size = 0 then []
      else
        let len = min chunk_size remaining in
        (offset, len) # plan_chunks chunk_size (offset + len) (remaining - len))"
  by pat_completeness auto
termination
  by (relation "measure (\<lambda>(chunk_size, offset, remaining). remaining)") (auto simp: min_def)

text \<open>
  Modelled from the spec: the forward pass of the Parallel Compression Executor (section
  4.3). Every chunk is compressed on its own at the same level; the assembly concatenates
  the results by index and records \<open>(original_size, compressed_size)\<close>; one failing chunk
  fails the call.
\<close>

fun compress_chunks ::
  "codec \<Rightarrow> int \<Rightarrow> bytes \<Rightarrow> (nat \<times> nat) list \<Rightarrow> ((u64 \<times> u64) list \<times> bytes) option" where
  "compress_chunks cd level payload [] = Some ([], [])"
| "compress_chunks cd level payload ((offset, len) # rest) =
     (case encode cd level (take len (drop offset payload)) of
        None \<Rightarrow> None
      | Some c \<Rightarrow>
          (case compress_chunks cd level payload rest of
             None \<Rightarrow> None
           | Some (table, out) \<Rightarrow> Some ((of_nat len, of_nat (length c)) # table, c @ out)))"

text \<open>
  Modelled from the spec: \<^verbatim>\<open>compress_safetensor\<close>, the forward Result Assembler (section
  4.5): Header Packer on the metadata, planner and executor on the tensor payload.
\<close>

definition spec_compress_safetensor ::
  "codec \<Rightarrow> nat \<Rightarrow> bytes \<Rightarrow> bytes \<Rightarrow> int \<Rightarrow> CompressionResult option" where
  "spec_compress_safetensor cd chunk_size metadata payload level =
     (case encode cd level metadata of
        None \<Rightarrow> None
      | Some h \<Rightarrow>
          (case compress_chunks cd level payload (plan_chunks chunk_size 0 (length payload)) of
             None \<Rightarrow> None
           | Some (table, out) \<Rightarrow>
               Some \<lparr>compressed_header = h, compressed_tensors = out, chunk_info = table\<rparr>))"

text \<open>
  Modelled from the spec: the two kinds of failure the executor tells apart in its
  reported error (section 4.3, section 7): a codec-level failure, when the decompressor
  rejects its input, and a size bookkeeping inconsistency.
\<close>

datatype engine_error = CodecError | SizeMismatchError

text \<open>
  Modelled from the spec: the reverse pass of the executor (section 4.3). Chunk \<open>i\<close>
  occupies the bytes from the prefix sum of the compressed sizes before it, for
  \<open>compressed_size i\<close> bytes, and must decode to exactly \<open>original_size i\<close> bytes.
  The declared sizes are trusted: where the payload is shorter than they say, the codec
  is handed the bytes that are there.
\<close>

fun decompress_chunks :: "codec \<Rightarrow> (u64 \<times> u64) list \<Rightarrow> bytes \<Rightarrow> engine_error + bytes" where
  "decompress_chunks cd [] payload = Inr []"
| "decompress_chunks cd ((orig, cmp) # rest) payload =
     (case decode cd (take (unat cmp) payload) of
        None \<Rightarrow> Inl CodecError
      | Some d \<Rightarrow>
          if length d \<noteq> unat orig then Inl SizeMismatchError
          else (case decompress_chunks cd rest (drop (unat cmp) payload) of
                  Inl e \<Rightarrow> Inl e
                | Inr out \<Rightarrow> Inr (d @ out)))"

text \<open>
  Modelled from the spec: the reverse Result Assembler (section 4.5): Header Packer
  (unpack) on the compressed header, executor on the payload and the chunk table.
\<close>

definition spec_decompress_kang_result ::
  "codec \<Rightarrow> bytes \<Rightarrow> bytes \<Rightarrow> (u64 \<times> u64) list \<Rightarrow> engine_error + bytes \<times> bytes" where
  "spec_decompress_kang_result cd h payload table =
     (case decode cd h of
        None \<Rightarrow> Inl CodecError
      | Some metadata \<Rightarrow>
          (case decompress_chunks cd table payload of
             Inl e \<Rightarrow> Inl e
           | Inr tensors \<Rightarrow> Inr (metadata, tensors)))"

text \<open>
  Modelled from the spec: \<^verbatim>\<open>decompress_kang\<close> as \<^verbatim>\<open>main.cpp\<close> calls it. The entry point
  answers with a \<^verbatim>\<open>bool\<close>, so the kind of failure does not reach the caller.
\<close>

definition spec_decompress_kang ::
  "codec \<Rightarrow> bytes \<Rightarrow> bytes \<Rightarrow> (u64 \<times> u64) list \<Rightarrow> (bytes \<times> bytes) option" where
  "spec_decompress_kang cd h payload table =
     (case spec_decompress_kang_result cd h payload table of
        Inl e \<Rightarrow> None
      | Inr result \<Rightarrow> Some result)"

text \<open>
  Modelled from the spec: the environment in which the two entry points are the engine
  above; \<open>limit\<close> is the allocation limit of the machine.
\<close>

definition spec_environment :: "codec \<Rightarrow> nat \<Rightarrow> nat \<Rightarrow> environment" where
  "spec_environment cd chunk_size limit =
     \<lparr>compress_safetensor = spec_compress_safetensor cd chunk_size,
      decompress_kang = spec_decompress_kang cd,
      max_alloc = limit\<rparr>"

section \<open>Concrete inputs\<close>

text \<open>
  A small codec for concrete runs: a stored block, the data behind one byte that records
  the level it was written at. Decoding drops that byte and rejects an empty block.
\<close>

definition stored_encode :: "int \<Rightarrow> bytes \<Rightarrow> bytes option" where
  "stored_encode level b = Some (of_int level # b)"

fun stored_decode :: "bytes \<Rightarrow> bytes option" where
  "stored_decode [] = None"
| "stored_decode (m # b) = Some b"

definition stored_codec :: codec where
  "stored_codec = \<lparr>encode = stored_encode, decode = stored_decode\<rparr>"

text \<open>
  The engine with that codec and chunks of 2 bytes, on a machine whose buffers hold up to
  \<open>2\<^sup>6\<^sup>3 - 1\<close> bytes (the \<^verbatim>\<open>max_size()\<close> of a \<^verbatim>\<open>vector<char>\<close> on a 64-bit target).
\<close>

definition example_env :: environment where
  "example_env = spec_environment stored_codec 2 (2 ^ 63 - 1)"

text \<open>A file system holding the given regular files, where every output can be created.\<close>

definition example_fs :: "(string \<times> bytes) list \<Rightarrow> filesystem" where
  "example_fs files =
     \<lparr>status = (\<lambda>p. case map_of files p of None \<Rightarrow> Some NotFound | Some b \<Rightarrow> Some Regular),
      readable = map_of files,
      creatable = (\<lambda>p. True),
      entries = (\<lambda>p. Some []),
      mkdirs = (\<lambda>p. True),
      extension = (\<lambda>p. []),
      target = (\<lambda>out p ext. out)\<rparr>"

text \<open>
  A \<^verbatim>\<open>.safetensors\<close> buffer: header length 2, metadata \<^verbatim>\<open>{}\<close>, five tensor bytes.
\<close>

definition example_asset :: bytes where
  "example_asset = [2, 0, 0, 0, 0, 0, 0, 0, 0x7B, 0x7D, 1, 2, 3, 4, 5]"

text \<open>Its container under \<open>example_env\<close> at level 10: three chunks of 2, 2 and 1 bytes.\<close>

definition example_kang :: bytes where
  "example_kang =
     [0x4B, 0x41, 0x4E, 0x47, 0x43, 0x4F, 0x4D, 0x50,
      3, 0, 0, 0, 0, 0, 0, 0,
      10, 0x7B, 0x7D,
      3, 0, 0, 0, 0, 0, 0, 0,
      2, 0, 0, 0, 0, 0, 0, 0,  3, 0, 0, 0, 0, 0, 0, 0,
      2, 0, 0, 0, 0, 0, 0, 0,  3, 0, 0, 0, 0, 0, 0, 0,
      1, 0, 0, 0, 0, 0, 0, 0,  2, 0, 0, 0, 0, 0, 0, 0,
      10, 1, 2, 10, 3, 4, 10, 5]"

text \<open>
  A buffer of 11 bytes whose length prefix declares \<open>2\<^sup>6\<^sup>4 - 8\<close> metadata bytes.
\<close>

definition wrapping_asset :: bytes where
  "wrapping_asset = [0xF8, 0xFF, 0xFF, 0xFF, 0xFF, 0xFF, 0xFF, 0xFF, 1, 2, 3]"

text \<open>The same engine with a codec that always fails.\<close>

definition failing_env :: environment where
  "failing_env = spec_environment \<lparr>encode = (\<lambda>level b. None), decode = (\<lambda>b. None)\<rparr> 2 (2 ^ 63 - 1)"

text \<open>The example engine on a machine whose buffers hold 2 bytes at most.\<close>

definition small_env :: environment where
  "small_env = spec_environment stored_codec 2 2"

text \<open>
  Two codecs with one encoder: a block is as many bytes 1 as the data is long, a byte 0,
  and the data. The framed decoder accepts a block only when it is complete. The filling
  decoder reads the length from the front and fills whatever data is missing with zeros.
\<close>

definition framed_encode :: "int \<Rightarrow> bytes \<Rightarrow> bytes option" where
  "framed_encode level b = Some (replicate (length b) 1 @ 0 # b)"

definition framed_decode :: "bytes \<Rightarrow> bytes option" where
  "framed_decode c =
     (let n = length (takeWhile (\<lambda>x. x = 1) c) in
      if length c = 2 * n + 1 then Some (drop (n + 1) c) else None)"

definition filling_decode :: "bytes \<Rightarrow> bytes option" where
  "filling_decode c =
     (let n = length (takeWhile (\<lambda>x. x = 1) c) in
      if length c \<le> n then None else Some (take n (drop (n + 1) c @ replicate n 0)))"

definition framed_codec :: codec where
  "framed_codec = \<lparr>encode = framed_encode, decode = framed_decode\<rparr>"

definition filling_codec :: codec where
  "filling_codec = \<lparr>encode = framed_encode, decode = filling_decode\<rparr>"

definition framed_env :: environment where
  "framed_env = spec_environment framed_codec 2 (2 ^ 63 - 1)"

definition filling_env :: environment where
  "filling_env = spec_environment filling_codec 2 (2 ^ 63 - 1)"



section \<open>Integers in the byte stream\<close>

lemma le_value_le_bytes: "le_value (le_bytes n v) = v mod 256 ^ n"
  by (induction n arbitrary: v) (simp_all add: unat_of_nat mod_mult2_eq)

lemma length_le_bytes [simp]: "length (le_bytes n v) = n"
  by (induction n arbitrary: v) auto

lemma length_u64_bytes [simp]: "length (u64_bytes w) = 8"
  by (simp add: u64_bytes_def)

lemma bytes_u64_u64_bytes [simp]: "bytes_u64 (u64_bytes w) = w"
  using unsigned_less [of w, where ?'a = nat]
  by (simp add: bytes_u64_def u64_bytes_def le_value_le_bytes)

lemma length_KANG_SIGNATURE [simp]: "length KANG_SIGNATURE = 8"
  by (simp add: KANG_SIGNATURE_def)

lemma unat_of_nat_u64: "n < 2 ^ 64 \<Longrightarrow> unat (of_nat n :: u64) = n"
  by (simp add: unat_of_nat)

lemma unat_u64_less: "unat (w :: u64) < 2 ^ 64"
  using unsigned_less [of w, where ?'a = nat] by simp

lemma unat_byte_less: "unat (a :: byte) < 256"
  using unsigned_less [of a, where ?'a = nat] by simp

lemma le_bytes_le_value: "length bs = n \<Longrightarrow> le_bytes n (le_value bs) = bs"
  by (induction bs arbitrary: n) (auto simp: unat_byte_less)

lemma le_value_bound: "le_value bs < 256 ^ length bs"
proof (induction bs)
  case Nil
  show ?case by simp
next
  case (Cons b bs)
  have "unat b + 256 * le_value bs < 256 + 256 * le_value bs"
    using unat_byte_less [of b] by simp
  also have "\<dots> \<le> 256 * 256 ^ length bs"
    using Cons.IH by simp
  finally show ?case by simp
qed

lemma u64_bytes_bytes_u64: "length bs = 8 \<Longrightarrow> u64_bytes (bytes_u64 bs) = bs"
  using le_value_bound [of bs]
  by (simp add: u64_bytes_def bytes_u64_def unat_of_nat le_bytes_le_value)


section \<open>The length check of handle\_compression\<close>

lemma header_size_mismatch_wraps:
  "header_size_mismatch file_buffer header_len \<longleftrightarrow>
     length file_buffer mod 2 ^ 64 < (8 + unat header_len) mod 2 ^ 64"
  by (simp add: header_size_mismatch_def word_less_nat_alt unat_of_nat unat_word_ariths)

lemma plus8_wraps: "(8 + h < (8::u64)) \<longleftrightarrow> 2 ^ 64 - 8 \<le> unat h"
proof -
  have "unat h < 2 ^ 64"
    using unsigned_less [of h, where ?'a = nat] by simp
  moreover have "unat (8 + h) = (8 + unat h) mod 2 ^ 64"
    by (simp add: unat_word_ariths)
  ultimately show ?thesis
    unfolding word_less_nat_alt by (simp add: mod_if) arith
qed

text \<open>
  C10. The truncation check of the compression path compares the buffer length \<open>n\<close> with
  \<open>8 + h\<close> computed modulo \<open>2\<^sup>6\<^sup>4\<close>. So for a buffer of \<open>n \<ge> 8\<close> bytes whose declared
  header length \<open>h\<close> is at least \<open>2\<^sup>6\<^sup>4 - 8\<close>, the check passes although \<open>h\<close> exceeds
  \<open>n - 8\<close>, and the handler reports neither of its two "invalid safetensors file" errors.
\<close>

theorem header_check_wraps:
  assumes n: "8 \<le> length file_buffer" "length file_buffer < 2 ^ 64"
    and h: "2 ^ 64 - 8 \<le> unat (bytes_u64 (take 8 file_buffer))"
    and r: "readable fs input_path = Some file_buffer"
    and m: "length file_buffer \<le> max_alloc env"
  shows "(header_size_mismatch file_buffer (bytes_u64 (take 8 file_buffer)) \<longleftrightarrow>
           length file_buffer mod 2 ^ 64 < (8 + unat (bytes_u64 (take 8 file_buffer))) mod 2 ^ 64)
     \<and> \<not> header_size_mismatch file_buffer (bytes_u64 (take 8 file_buffer))
     \<and> length file_buffer - 8 < unat (bytes_u64 (take 8 file_buffer))
     \<and> fst (handle_compression env fs input_path output_path level) \<noteq> Inl TooSmall
     \<and> fst (handle_compression env fs input_path output_path level) \<noteq> Inl HeaderSizeMismatch"
proof -
  let ?h = "bytes_u64 (take 8 file_buffer)"
  have hlt: "unat ?h < 2 ^ 64"
    using unsigned_less [of ?h, where ?'a = nat] by simp
  have wrap: "(8 + unat ?h) mod 2 ^ 64 = 8 + unat ?h - 2 ^ 64"
    using h hlt by (simp add: mod_if)
  have pass: "\<not> header_size_mismatch file_buffer ?h"
    unfolding header_size_mismatch_wraps wrap using n h hlt by simp
  have exceeds: "length file_buffer - 8 < unat ?h"
    using n h by simp
  have split: "split_safetensors file_buffer = Inl UncaughtStringRange"
    using n pass h by (simp add: split_safetensors_def Let_def plus8_wraps)
  have "handle_compression env fs input_path output_path level = (Inl UncaughtStringRange, fs)"
    using r m split by (simp add: handle_compression_def read_all_def)
  with pass exceeds show ?thesis
    by (simp add: header_size_mismatch_wraps)
qed

theorem header_check_wraps_witness:
  "8 \<le> length wrapping_asset \<and> length wrapping_asset < 2 ^ 64
   \<and> 2 ^ 64 - 8 \<le> unat (bytes_u64 (take 8 wrapping_asset))
   \<and> readable (example_fs [(''in'', wrapping_asset)]) ''in'' = Some wrapping_asset
   \<and> length wrapping_asset \<le> max_alloc example_env
   \<and> \<not> header_size_mismatch wrapping_asset (bytes_u64 (take 8 wrapping_asset))
   \<and> length wrapping_asset - 8 < unat (bytes_u64 (take 8 wrapping_asset))
   \<and> fst (handle_compression example_env (example_fs [(''in'', wrapping_asset)]) ''in'' ''out'' 10)
         \<noteq> Inl HeaderSizeMismatch"
proof -
  have h: "bytes_u64 (take 8 wrapping_asset) = 18446744073709551608"
    by (simp add: wrapping_asset_def bytes_u64_def)
  have r: "readable (example_fs [(''in'', wrapping_asset)]) ''in'' = Some wrapping_asset"
    by (simp add: example_fs_def)
  have m: "max_alloc example_env = 2 ^ 63 - 1"
    by (simp add: example_env_def spec_environment_def)
  have n: "length wrapping_asset = 11"
    by (simp add: wrapping_asset_def)
  show ?thesis
    using header_check_wraps [of wrapping_asset "example_fs [(''in'', wrapping_asset)]" "''in''"
        example_env "''out''" 10]
    by (simp add: h r m n)
qed

section \<open>The container as written and as parsed\<close>

lemma write_chunk_info_acc: "write_chunk_info out t = out @ write_chunk_info [] t"
proof (induction t arbitrary: out)
  case Nil
  show ?case by simp
next
  case (Cons x t)
  obtain orig cmp where x: "x = (orig, cmp)" by (cases x)
  show ?case
    unfolding x write_chunk_info.simps
    by (subst Cons.IH, subst (2) Cons.IH) simp
qed

lemma write_chunk_info_Cons:
  "write_chunk_info [] ((orig, cmp) # t) = u64_bytes orig @ u64_bytes cmp @ write_chunk_info [] t"
  by (subst write_chunk_info.simps, subst write_chunk_info_acc) simp

declare write_chunk_info.simps(2) [simp del]

lemma length_write_chunk_info [simp]: "length (write_chunk_info [] t) = 16 * length t"
  by (induction t) (auto simp: write_chunk_info_Cons)

lemma write_kang_layout:
  "write_kang r =
     KANG_SIGNATURE @ u64_bytes (of_nat (length (compressed_header r))) @ compressed_header r
       @ u64_bytes (of_nat (length (chunk_info r))) @ write_chunk_info [] (chunk_info r)
       @ compressed_tensors r"
  by (simp add: write_kang_def Let_def write_chunk_info_acc [of "KANG_SIGNATURE @ _"])

lemma read_at:
  "read n \<lparr>buf = b, pos = p\<rparr> =
     (if p + n \<le> length b then Some (take n (drop p b), \<lparr>buf = b, pos = p + n\<rparr>) else None)"
  by (simp add: read_def)

lemma read_u64_at:
  "read_u64 \<lparr>buf = b, pos = p\<rparr> =
     (if p + 8 \<le> length b then Some (bytes_u64 (take 8 (drop p b)), \<lparr>buf = b, pos = p + 8\<rparr>)
      else None)"
  by (simp add: read_u64_def read_at)

lemma read_chunk_info_at:
  "p \<le> length b \<Longrightarrow> read_chunk_info n \<lparr>buf = b, pos = p\<rparr> acc =
     (if p + 16 * n \<le> length b
      then Some (acc @ table_at n (drop p b), \<lparr>buf = b, pos = p + 16 * n\<rparr>)
      else None)"
proof (induction n arbitrary: p acc)
  case 0
  then show ?case by simp
next
  case (Suc n)
  show ?case
    using Suc.prems by (simp add: read_u64_at Suc.IH add.assoc add.commute [of p])
qed

lemma table_at_written: "table_at (length t) (write_chunk_info [] t @ rest) = t"
  by (induction t) (auto simp: write_chunk_info_Cons)

lemma written_table_at:
  "16 * n \<le> length bs \<Longrightarrow> write_chunk_info [] (table_at n bs) = take (16 * n) bs"
proof (induction n arbitrary: bs)
  case 0
  show ?case by simp
next
  case (Suc n)
  have "take (16 * Suc n) bs = take 8 bs @ take 8 (drop 8 bs) @ take (16 * n) (drop 16 bs)"
    using take_add [of 8 "8 + 16 * n" bs] take_add [of 8 "16 * n" "drop 8 bs"] by simp
  then show ?case
    using Suc by (simp add: write_chunk_info_Cons u64_bytes_bytes_u64)
qed

lemma length_table_at [simp]: "length (table_at n bs) = n"
  by (induction n arbitrary: bs) auto

lemma table_at_take: "16 * n \<le> m \<Longrightarrow> table_at n (take m bs) = table_at n bs"
proof (induction n arbitrary: m bs)
  case 0
  show ?case by simp
next
  case (Suc n)
  then show ?case by (simp add: drop_take min_def)
qed


lemma read_remaining_at:
  "p \<le> length b \<Longrightarrow> read_remaining env \<lparr>buf = b, pos = p\<rparr> =
     (if max_alloc env < length b - p then Inl UncaughtAllocation else Inr (drop p b))"
  by (simp add: read_remaining_def Let_def read_at nat_diff_distrib')

lemma parse_kang_unfold:
  "parse_kang env c =
     (if length c < 8 \<or> take 8 c \<noteq> KANG_SIGNATURE then Inl InvalidSignature
      else if length c < 16 then Inl ErrorReadingHeaderSize
      else
        let H = unat (bytes_u64 (take 8 (drop 8 c))) in
        if max_alloc env < H then Inl UncaughtAllocation
        else if length c < 16 + H then Inl ErrorReadingCompressedHeader
        else if length c < 24 + H then Inl ErrorReadingNumChunks
        else
          let K = unat (bytes_u64 (take 8 (drop (16 + H) c))) in
          if max_alloc env < 16 * K then Inl UncaughtAllocation
          else if length c < 24 + H + 16 * K then Inl ErrorReadingChunkInfo
          else if max_alloc env < length c - (24 + H + 16 * K) then Inl UncaughtAllocation
          else Inr (take H (drop 16 c), drop (24 + H + 16 * K) c, table_at K (drop (24 + H) c)))"
  by (simp add: parse_kang_def read_at read_u64_at read_chunk_info_at read_remaining_at Let_def
      add.assoc)


lemma parse_kang_InrD:
  assumes "parse_kang env c = Inr (h, p, t)"
  shows "c = KANG_SIGNATURE @ u64_bytes (of_nat (length h)) @ h
               @ u64_bytes (of_nat (length t)) @ write_chunk_info [] t @ p"
    and "length h < 2 ^ 64" and "length t < 2 ^ 64"
    and "length h \<le> max_alloc env" and "16 * length t \<le> max_alloc env"
    and "length p \<le> max_alloc env"
proof -
  define H where "H = unat (bytes_u64 (take 8 (drop 8 c)))"
  define K where "K = unat (bytes_u64 (take 8 (drop (16 + H) c)))"
  from assms have facts:
    "8 \<le> length c" "take 8 c = KANG_SIGNATURE" "H \<le> max_alloc env" "24 + H \<le> length c"
    "16 * K \<le> max_alloc env" "24 + H + 16 * K \<le> length c"
    "length c - (24 + H + 16 * K) \<le> max_alloc env"
    "h = take H (drop 16 c)" "p = drop (24 + H + 16 * K) c" "t = table_at K (drop (24 + H) c)"
    unfolding parse_kang_unfold H_def K_def Let_def
    by (simp_all split: if_splits)
  have lh: "length h = H" and lt: "length t = K"
    using facts by simp_all
  have Hlt: "H < 2 ^ 64" and Klt: "K < 2 ^ 64"
    unfolding H_def K_def by (rule unat_u64_less)+
  have uH: "u64_bytes (of_nat H) = take 8 (drop 8 c)"
    unfolding H_def using facts by (simp add: u64_bytes_bytes_u64)
  have uK: "u64_bytes (of_nat K) = take 8 (drop (16 + H) c)"
    unfolding K_def using facts by (simp add: u64_bytes_bytes_u64)
  have tb: "write_chunk_info [] t = take (16 * K) (drop (24 + H) c)"
    using facts by (simp add: written_table_at)
  have "c = take 8 c @ drop 8 c" by simp
  also have "drop 8 c = take 8 (drop 8 c) @ drop 16 c"
    using append_take_drop_id [of 8 "drop 8 c"] by simp
  also have "drop 16 c = take H (drop 16 c) @ drop (16 + H) c"
    using append_take_drop_id [of H "drop 16 c"] by (simp add: add.commute)
  also have "drop (16 + H) c = take 8 (drop (16 + H) c) @ drop (24 + H) c"
    using append_take_drop_id [of 8 "drop (16 + H) c"] by (simp add: add.commute)
  also have "drop (24 + H) c = take (16 * K) (drop (24 + H) c) @ drop (24 + H + 16 * K) c"
    using append_take_drop_id [of "16 * K" "drop (24 + H) c"] by (simp add: add.commute add.assoc)
  finally show "c = KANG_SIGNATURE @ u64_bytes (of_nat (length h)) @ h
               @ u64_bytes (of_nat (length t)) @ write_chunk_info [] t @ p"
    unfolding lh lt uH uK tb using facts by simp
  show "length h < 2 ^ 64" "length t < 2 ^ 64" using Hlt Klt lh lt by simp_all
  show "length h \<le> max_alloc env" "16 * length t \<le> max_alloc env" "length p \<le> max_alloc env"
    using facts lh lt by simp_all
qed

lemma parse_kang_written:
  assumes "length h < 2 ^ 64" and "length t < 2 ^ 64"
  shows "parse_kang env (KANG_SIGNATURE @ u64_bytes (of_nat (length h)) @ h
                          @ u64_bytes (of_nat (length t)) @ write_chunk_info [] t @ p) =
     (if max_alloc env < length h \<or> max_alloc env < 16 * length t \<or> max_alloc env < length p
      then Inl UncaughtAllocation else Inr (h, p, t))"
  using assms
  by (simp add: parse_kang_unfold Let_def unat_of_nat_u64 table_at_written)


lemma parse_kang_truncated:
  assumes "parse_kang env c = Inr (h, p, t)" and "n < length c"
  shows "parse_kang env (take n c) =
     (if n < 8 then Inl InvalidSignature
      else if n < 16 then Inl ErrorReadingHeaderSize
      else if n < 16 + length h then Inl ErrorReadingCompressedHeader
      else if n < 24 + length h then Inl ErrorReadingNumChunks
      else if n < 24 + length h + 16 * length t then Inl ErrorReadingChunkInfo
      else Inr (h, take (n - (24 + length h + 16 * length t)) p, t))"
proof -
  define H where "H = unat (bytes_u64 (take 8 (drop 8 c)))"
  define K where "K = unat (bytes_u64 (take 8 (drop (16 + H) c)))"
  from assms(1) have facts:
    "8 \<le> length c" "take 8 c = KANG_SIGNATURE" "H \<le> max_alloc env" "24 + H \<le> length c"
    "16 * K \<le> max_alloc env" "24 + H + 16 * K \<le> length c"
    "length c - (24 + H + 16 * K) \<le> max_alloc env"
    "h = take H (drop 16 c)" "p = drop (24 + H + 16 * K) c" "t = table_at K (drop (24 + H) c)"
    unfolding parse_kang_unfold H_def K_def Let_def
    by (simp_all split: if_splits)
  have lh: "length h = H" and lt: "length t = K"
    using facts by simp_all
  have len: "length (take n c) = n"
    using assms(2) by simp
  have seg: "take k (drop q (take n c)) = take k (drop q c)" if "q + k \<le> n" for q k
    using that by (simp add: drop_take min_def)
  have seg0: "take k (take n c) = take k c" if "k \<le> n" for k
    using that by (simp add: min_def)
  consider (a) "n < 8" | (b) "8 \<le> n" "n < 16" | (c) "16 \<le> n" "n < 16 + H"
    | (d) "16 + H \<le> n" "n < 24 + H" | (e) "24 + H \<le> n" "n < 24 + H + 16 * K"
    | (f) "24 + H + 16 * K \<le> n"
    by linarith
  then show ?thesis
  proof cases
    case a
    then show ?thesis
      unfolding parse_kang_unfold [of env "take n c"] len by simp
  next
    case b
    then show ?thesis
      unfolding parse_kang_unfold [of env "take n c"] len
      using facts by (simp add: seg0)
  next
    case c
    then have H': "unat (bytes_u64 (take 8 (drop 8 (take n c)))) = H"
      by (simp add: seg H_def)
    from c show ?thesis
      unfolding parse_kang_unfold [of env "take n c"] len H' Let_def
      using facts lh by (simp add: seg0)
  next
    case d
    then have H': "unat (bytes_u64 (take 8 (drop 8 (take n c)))) = H"
      by (simp add: seg H_def)
    from d show ?thesis
      unfolding parse_kang_unfold [of env "take n c"] len H' Let_def
      using facts lh by (simp add: seg0)
  next
    case e
    then have H': "unat (bytes_u64 (take 8 (drop 8 (take n c)))) = H"
      by (simp add: seg H_def)
    from e have K': "unat (bytes_u64 (take 8 (drop (16 + H) (take n c)))) = K"
      by (simp add: seg K_def)
    from e show ?thesis
      unfolding parse_kang_unfold [of env "take n c"] len H' K' Let_def
      using facts lh lt by (simp add: seg0)
  next
    case f
    then have H': "unat (bytes_u64 (take 8 (drop 8 (take n c)))) = H"
      by (simp add: seg H_def)
    from f have K': "unat (bytes_u64 (take 8 (drop (16 + H) (take n c)))) = K"
      by (simp add: seg K_def)
    have hh: "take H (drop 16 (take n c)) = h"
      using f facts by (simp add: seg)
    have tt: "table_at K (drop (24 + H) (take n c)) = t"
      using f facts by (simp add: drop_take table_at_take)
    have pp: "drop (24 + H + 16 * K) (take n c) = take (n - (24 + H + 16 * K)) p"
      using facts by (simp add: drop_take)
    from f show ?thesis
      unfolding parse_kang_unfold [of env "take n c"] len H' K' Let_def hh tt pp
      using facts lh lt assms(2) by (simp add: seg0)
  qed
qed

section \<open>Runs on the concrete inputs\<close>

lemma le_bytes_numeral:
  "le_bytes (numeral k) v = of_nat (v mod 256) # le_bytes (pred_numeral k) (v div 256)"
  unfolding numeral_eq_Suc [of k] by (rule le_bytes.simps)

lemma table_at_numeral:
  "table_at (numeral k) bs =
     (bytes_u64 (take 8 bs), bytes_u64 (take 8 (drop 8 bs))) # table_at (pred_numeral k) (drop 16 bs)"
  unfolding numeral_eq_Suc [of k] by (rule table_at.simps)

lemma max_alloc_example_env [simp]: "max_alloc example_env = 2 ^ 63 - 1"
  by (simp add: example_env_def spec_environment_def)

lemma example_split: "split_safetensors example_asset = Inr ([0x7B, 0x7D], [1, 2, 3, 4, 5])"
proof -
  have "bytes_u64 (take 8 example_asset) = 2"
    by (simp add: example_asset_def bytes_u64_def)
  moreover have "length example_asset = 15"
    by (simp add: example_asset_def)
  moreover have "take 2 (drop 8 example_asset) = [0x7B, 0x7D]" "drop 10 example_asset = [1, 2, 3, 4, 5]"
    by (simp_all add: example_asset_def)
  ultimately show ?thesis
    by (simp add: split_safetensors_def header_size_mismatch_def Let_def)
qed

lemma example_plan: "plan_chunks 2 0 5 = [(0, 2), (2, 2), (4, 1)]"
  by (simp add: Let_def)

lemma example_compress:
  "compress_safetensor example_env [0x7B, 0x7D] [1, 2, 3, 4, 5] 10 =
     Some \<lparr>compressed_header = [10, 0x7B, 0x7D],
           compressed_tensors = [10, 1, 2, 10, 3, 4, 10, 5],
           chunk_info = [(2, 3), (2, 3), (1, 2)]\<rparr>"
  by (simp add: example_env_def spec_environment_def spec_compress_safetensor_def stored_codec_def
      stored_encode_def example_plan)

lemma example_write:
  "write_kang \<lparr>compressed_header = [10, 0x7B, 0x7D],
           compressed_tensors = [10, 1, 2, 10, 3, 4, 10, 5],
           chunk_info = [(2, 3), (2, 3), (1, 2)]\<rparr> = example_kang"
  by (simp add: write_kang_layout write_chunk_info_Cons u64_bytes_def le_bytes_numeral
      KANG_SIGNATURE_def example_kang_def)

lemma example_parse:
  "parse_kang example_env example_kang =
     Inr ([10, 0x7B, 0x7D], [10, 1, 2, 10, 3, 4, 10, 5], [(2, 3), (2, 3), (1, 2)])"
proof -
  have l: "length example_kang = 83"
    by (simp add: example_kang_def)
  have s: "take 8 example_kang = KANG_SIGNATURE"
    by (simp add: example_kang_def KANG_SIGNATURE_def)
  have H: "unat (bytes_u64 (take 8 (drop 8 example_kang))) = 3"
    by (simp add: example_kang_def bytes_u64_def)
  have K: "unat (bytes_u64 (take 8 (drop 19 example_kang))) = 3"
    by (simp add: example_kang_def bytes_u64_def)
  have h: "take 3 (drop 16 example_kang) = [10, 0x7B, 0x7D]"
    by (simp add: example_kang_def)
  have p: "drop 75 example_kang = [10, 1, 2, 10, 3, 4, 10, 5]"
    by (simp add: example_kang_def)
  have t: "table_at 3 (drop 27 example_kang) = [(2, 3), (2, 3), (1, 2)]"
    by (simp add: example_kang_def bytes_u64_def table_at_numeral)
  show ?thesis
    unfolding parse_kang_unfold Let_def H l s
    by (simp add: K h p t)
qed

lemma example_decompress:
  "decompress_kang example_env [10, 0x7B, 0x7D] [10, 1, 2, 10, 3, 4, 10, 5] [(2, 3), (2, 3), (1, 2)] =
     Some ([0x7B, 0x7D], [1, 2, 3, 4, 5])"
  by (simp add: example_env_def spec_environment_def spec_decompress_kang_def
      spec_decompress_kang_result_def stored_codec_def)

lemma example_unframe: "write_safetensors [0x7B, 0x7D] [1, 2, 3, 4, 5] = example_asset"
  by (simp add: write_safetensors_def u64_bytes_def le_bytes_numeral example_asset_def)

lemma readable_example_fs [simp]: "readable (example_fs files) = map_of files"
  by (simp add: example_fs_def)

lemma creatable_example_fs [simp]: "creatable (example_fs files) p"
  by (simp add: example_fs_def)

lemma readable_write_file [simp]: "readable (write_file fs p bs) = (readable fs)(p := Some bs)"
  by (simp add: write_file_def)

lemma creatable_write_file [simp]: "creatable (write_file fs p bs) = creatable fs"
  by (simp add: write_file_def)

lemma example_compression:
  "handle_compression example_env (example_fs [(''in'', example_asset)]) ''in'' ''out'' 10 =
     (Inr (), write_file (example_fs [(''in'', example_asset)]) ''out'' example_kang)"
proof -
  have "length example_asset \<le> 2 ^ 63 - 1"
    by (simp add: example_asset_def)
  then show ?thesis
    by (simp add: handle_compression_def read_all_def example_split example_compress example_write)
qed

lemma example_decompression:
  "readable fs ''out'' = Some example_kang \<Longrightarrow> creatable fs ''back'' \<Longrightarrow>
   handle_decompression example_env fs ''out'' ''back'' =
     (Inr (), write_file fs ''back'' example_asset)"
  by (simp add: handle_decompression_def example_parse example_decompress example_unframe)

lemma max_alloc_failing_env [simp]: "max_alloc failing_env = 2 ^ 63 - 1"
  by (simp add: failing_env_def spec_environment_def)

lemma parse_kang_max_alloc:
  "max_alloc env = max_alloc env' \<Longrightarrow> parse_kang env c = parse_kang env' c"
  by (simp add: parse_kang_unfold Let_def)

lemma failing_compression:
  "handle_compression failing_env (example_fs [(''in'', example_asset)]) ''in'' ''out'' 10 =
     (Inl CompressionFailed, example_fs [(''in'', example_asset)])"
proof -
  have "length example_asset \<le> 2 ^ 63 - 1"
    by (simp add: example_asset_def)
  then show ?thesis
    by (simp add: handle_compression_def read_all_def example_split failing_env_def
        spec_environment_def spec_compress_safetensor_def)
qed

lemma failing_decompression:
  "handle_decompression failing_env (example_fs [(''in'', example_kang)]) ''in'' ''out'' =
     (Inl DecompressionFailed, example_fs [(''in'', example_kang)])"
proof -
  have "parse_kang failing_env example_kang = parse_kang example_env example_kang"
    by (rule parse_kang_max_alloc) simp
  then show ?thesis
    by (simp add: handle_decompression_def example_parse failing_env_def
        spec_environment_def spec_decompress_kang_def spec_decompress_kang_result_def)
qed

lemma stoi_25: "stoi ''25'' = Some 25"
  by (simp add: stoi_def isspace_def isdigit_def digits_value_def Let_def)

lemma status_example_fs:
  "status (example_fs files) p =
     (case map_of files p of None \<Rightarrow> Some NotFound | Some b \<Rightarrow> Some Regular)"
  by (simp add: example_fs_def)

lemma example_compress_level:
  "compress_safetensor example_env [0x7B, 0x7D] [1, 2, 3, 4, 5] level =
     Some \<lparr>compressed_header = [of_int level, 0x7B, 0x7D],
           compressed_tensors = [of_int level, 1, 2, of_int level, 3, 4, of_int level, 5],
           chunk_info = [(2, 3), (2, 3), (1, 2)]\<rparr>"
  by (simp add: example_env_def spec_environment_def spec_compress_safetensor_def stored_codec_def
      stored_encode_def example_plan)

section \<open>What the handlers write, and when\<close>

lemma table_at_nth:
  "i < n \<Longrightarrow> table_at n bs ! i =
     (bytes_u64 (take 8 (drop (16 * i) bs)), bytes_u64 (take 8 (drop (8 + 16 * i) bs)))"
proof (induction n arbitrary: i bs)
  case 0
  then show ?case by simp
next
  case (Suc n)
  show ?case
  proof (cases i)
    case 0
    then show ?thesis by simp
  next
    case (Suc j)
    with Suc.prems have "j < n" by simp
    from Suc.IH [OF this, of "drop 16 bs"] Suc show ?thesis
      by (simp add: add.commute add.left_commute)
  qed
qed

lemma handle_compression_InrD:
  assumes "handle_compression env fs input_path output_path level = (Inr (), fs')"
  shows "\<exists>file_buffer json_header tensor_data r.
           readable fs input_path = Some file_buffer
         \<and> split_safetensors file_buffer = Inr (json_header, tensor_data)
         \<and> compress_safetensor env json_header tensor_data level = Some r
         \<and> creatable fs output_path
         \<and> fs' = write_file fs output_path (write_kang r)"
  using assms
  by (auto simp: handle_compression_def read_all_def
      split: option.splits sum.splits if_splits prod.splits)

lemma handle_decompression_InrD:
  assumes "handle_decompression env fs input_path output_path = (Inr (), fs')"
  shows "\<exists>content h p t json_header tensor_data.
           readable fs input_path = Some content
         \<and> parse_kang env content = Inr (h, p, t)
         \<and> decompress_kang env h p t = Some (json_header, tensor_data)
         \<and> creatable fs output_path
         \<and> fs' = write_file fs output_path (write_safetensors json_header tensor_data)"
  using assms
  by (auto simp: handle_decompression_def
      split: option.splits sum.splits if_splits prod.splits)

lemma write_safetensors_layout:
  "write_safetensors json_header tensor_data =
     u64_bytes (of_nat (length json_header)) @ json_header @ tensor_data"
  by (simp add: write_safetensors_def Let_def)

text \<open>
  C6. When the first 8 bytes of the input stream are not the signature (or the stream has
  fewer than 8 bytes), \<^verbatim>\<open>handle_decompression\<close> reports the invalid-signature error and
  leaves the file system as it was: no output file. This holds for every engine, which is
  not consulted: the error comes before any chunk work.
\<close>

theorem bad_signature_rejected:
  assumes "readable fs input_path = Some content"
    and "take 8 content \<noteq> KANG_SIGNATURE"
  shows "handle_decompression env fs input_path output_path = (Inl InvalidSignature, fs)"
  using assms by (simp add: handle_decompression_def parse_kang_unfold)

theorem bad_signature_rejected_witness:
  "readable (example_fs [(''in'', 0 # tl example_kang)]) ''in'' = Some (0 # tl example_kang)
   \<and> take 8 (0 # tl example_kang) \<noteq> KANG_SIGNATURE
   \<and> handle_decompression example_env (example_fs [(''in'', 0 # tl example_kang)]) ''in'' ''out'' =
       (Inl InvalidSignature, example_fs [(''in'', 0 # tl example_kang)])"
proof -
  have "take 8 (0 # tl example_kang) \<noteq> KANG_SIGNATURE"
    by (simp add: example_kang_def KANG_SIGNATURE_def)
  then show ?thesis
    using bad_signature_rejected [of "example_fs [(''in'', 0 # tl example_kang)]" "''in''"
        "0 # tl example_kang" example_env "''out''"]
    by simp
qed

text \<open>
  C7. A compress or decompress invocation that fails, at whatever stage, persists nothing:
  the file system after the handler is the one before it. The output stream is opened only
  after the engine call has returned its complete result.
\<close>

theorem no_output_on_failure:
  assumes "r = handle_compression env fs input_path output_path level
         \<or> r = handle_decompression env fs input_path output_path"
    and "fst r = Inl e"
  shows "snd r = fs"
  using assms
  by (auto simp: handle_compression_def handle_decompression_def
      split: option.splits sum.splits if_splits prod.splits)

theorem no_output_on_failure_witness:
  "fst (handle_compression failing_env (example_fs [(''in'', example_asset)]) ''in'' ''out'' 10)
      = Inl CompressionFailed
   \<and> snd (handle_compression failing_env (example_fs [(''in'', example_asset)]) ''in'' ''out'' 10)
      = example_fs [(''in'', example_asset)]
   \<and> fst (handle_decompression failing_env (example_fs [(''in'', example_kang)]) ''in'' ''out'')
      = Inl DecompressionFailed
   \<and> snd (handle_decompression failing_env (example_fs [(''in'', example_kang)]) ''in'' ''out'')
      = example_fs [(''in'', example_kang)]"
  using
    no_output_on_failure [of
      "handle_compression failing_env (example_fs [(''in'', example_asset)]) ''in'' ''out'' 10"
      failing_env "example_fs [(''in'', example_asset)]" "''in''" "''out''" 10 CompressionFailed]
    no_output_on_failure [of
      "handle_decompression failing_env (example_fs [(''in'', example_kang)]) ''in'' ''out''"
      failing_env "example_fs [(''in'', example_kang)]" "''in''" "''out''" 10 DecompressionFailed]
  by (simp add: failing_compression failing_decompression)

text \<open>
  C9. After a successful decompression in which the engine produced the metadata \<open>M\<close> and
  the tensor bytes \<open>T\<close>, the output file is the 64-bit length of \<open>M\<close>, then \<open>M\<close>,
  then \<open>T\<close>: the handler puts the outer length prefix back.
\<close>

theorem decompression_output_layout:
  assumes "handle_decompression env fs input_path output_path = (Inr (), fs')"
  shows "\<exists>content h p t M T w.
           readable fs input_path = Some content
         \<and> parse_kang env content = Inr (h, p, t)
         \<and> decompress_kang env h p t = Some (M, T)
         \<and> readable fs' output_path = Some w
         \<and> w = u64_bytes (of_nat (length M)) @ M @ T
         \<and> bytes_u64 (take 8 w) = of_nat (length M)
         \<and> (length M < 2 ^ 64 \<longrightarrow> unat (bytes_u64 (take 8 w)) = length M)
         \<and> take (length M) (drop 8 w) = M
         \<and> drop (8 + length M) w = T"
proof -
  from handle_decompression_InrD [OF assms] obtain content h p t M T where
    d: "readable fs input_path = Some content" "parse_kang env content = Inr (h, p, t)"
      "decompress_kang env h p t = Some (M, T)"
      "fs' = write_file fs output_path (write_safetensors M T)"
    by blast
  let ?w = "u64_bytes (of_nat (length M)) @ M @ T"
  have "readable fs' output_path = Some ?w"
    using d by (simp add: write_safetensors_layout)
  moreover have "bytes_u64 (take 8 ?w) = of_nat (length M)"
    by simp
  moreover have "take (length M) (drop 8 ?w) = M" "drop (8 + length M) ?w = T"
    by simp_all
  ultimately show ?thesis
    using d by (auto simp: unat_of_nat_u64)
qed


theorem decompression_output_layout_witness:
  "handle_decompression example_env (example_fs [(''out'', example_kang)]) ''out'' ''back'' =
     (Inr (), write_file (example_fs [(''out'', example_kang)]) ''back'' example_asset)
   \<and> (\<exists>M T w.
         decompress_kang example_env [10, 0x7B, 0x7D] [10, 1, 2, 10, 3, 4, 10, 5]
           [(2, 3), (2, 3), (1, 2)] = Some (M, T)
       \<and> readable (write_file (example_fs [(''out'', example_kang)]) ''back'' example_asset) ''back''
           = Some w
       \<and> length M < 2 ^ 64
       \<and> unat (bytes_u64 (take 8 w)) = length M
       \<and> take (length M) (drop 8 w) = M
       \<and> drop (8 + length M) w = T)"
proof -
  let ?fs = "example_fs [(''out'', example_kang)]"
  have run: "handle_decompression example_env ?fs ''out'' ''back'' =
      (Inr (), write_file ?fs ''back'' example_asset)"
    by (rule example_decompression) simp_all
  from decompression_output_layout [OF run]
  obtain content h p t M T w where
    w: "readable ?fs ''out'' = Some content" "parse_kang example_env content = Inr (h, p, t)"
      "decompress_kang example_env h p t = Some (M, T)"
      "readable (write_file ?fs ''back'' example_asset) ''back'' = Some w"
      "length M < 2 ^ 64 \<longrightarrow> unat (bytes_u64 (take 8 w)) = length M"
      "take (length M) (drop 8 w) = M" "drop (8 + length M) w = T"
    by blast
  from w(1) have "content = example_kang" by simp
  with w(2) have hpt: "h = [10, 0x7B, 0x7D]" "p = [10, 1, 2, 10, 3, 4, 10, 5]"
    "t = [(2, 3), (2, 3), (1, 2)]"
    by (simp_all add: example_parse)
  with w(3) have M: "M = [0x7B, 0x7D]"
    by (simp add: example_decompress)
  then have "length M < 2 ^ 64" by simp
  with w hpt run show ?thesis by blast
qed

text \<open>
  C4. After a successful compression the output file is, in order: the 8 signature bytes;
  the 64-bit length \<open>H\<close> of the compressed header; the \<open>H\<close> header bytes; the 64-bit
  chunk count \<open>K\<close>; \<open>K\<close> pairs of 64-bit \<open>(original_size, compressed_size)\<close>; and the
  compressed payload up to the end of the file, whose length is stored nowhere.
\<close>

theorem container_layout:
  assumes "handle_compression env fs input_path output_path level = (Inr (), fs')"
  shows "\<exists>file_buffer json_header tensor_data r c.
           readable fs input_path = Some file_buffer
         \<and> split_safetensors file_buffer = Inr (json_header, tensor_data)
         \<and> compress_safetensor env json_header tensor_data level = Some r
         \<and> readable fs' output_path = Some c
         \<and> take 8 c = KANG_SIGNATURE
         \<and> bytes_u64 (take 8 (drop 8 c)) = of_nat (length (compressed_header r))
         \<and> take (length (compressed_header r)) (drop 16 c) = compressed_header r
         \<and> bytes_u64 (take 8 (drop (16 + length (compressed_header r)) c))
               = of_nat (length (chunk_info r))
         \<and> (\<forall>i < length (chunk_info r).
               bytes_u64 (take 8 (drop (24 + length (compressed_header r) + 16 * i) c))
                 = fst (chunk_info r ! i)
             \<and> bytes_u64 (take 8 (drop (32 + length (compressed_header r) + 16 * i) c))
                 = snd (chunk_info r ! i))
         \<and> drop (24 + length (compressed_header r) + 16 * length (chunk_info r)) c
               = compressed_tensors r
         \<and> length c = 24 + length (compressed_header r) + 16 * length (chunk_info r)
               + length (compressed_tensors r)"
proof -
  from handle_compression_InrD [OF assms] obtain file_buffer json_header tensor_data r where
    d: "readable fs input_path = Some file_buffer"
      "split_safetensors file_buffer = Inr (json_header, tensor_data)"
      "compress_safetensor env json_header tensor_data level = Some r"
      "fs' = write_file fs output_path (write_kang r)"
    by blast
  let ?h = "compressed_header r" and ?t = "chunk_info r" and ?p = "compressed_tensors r"
  let ?c = "write_kang r"
  have c: "?c = KANG_SIGNATURE @ u64_bytes (of_nat (length ?h)) @ ?h
                 @ u64_bytes (of_nat (length ?t)) @ write_chunk_info [] ?t @ ?p"
    by (rule write_kang_layout)
  have tab: "drop (24 + length ?h) ?c = write_chunk_info [] ?t @ ?p"
    unfolding c by simp
  have pairs: "bytes_u64 (take 8 (drop (24 + length ?h + 16 * i) ?c)) = fst (?t ! i)
      \<and> bytes_u64 (take 8 (drop (32 + length ?h + 16 * i) ?c)) = snd (?t ! i)"
    if "i < length ?t" for i
  proof -
    have "?t ! i = table_at (length ?t) (write_chunk_info [] ?t @ ?p) ! i"
      by (simp add: table_at_written)
    also have "\<dots> = (bytes_u64 (take 8 (drop (16 * i) (drop (24 + length ?h) ?c))),
                       bytes_u64 (take 8 (drop (8 + 16 * i) (drop (24 + length ?h) ?c))))"
      unfolding tab by (rule table_at_nth [OF that])
    finally show ?thesis
      by (simp add: add.commute add.left_commute)
  qed
  have "readable fs' output_path = Some ?c"
    using d by simp
  moreover have "take 8 ?c = KANG_SIGNATURE"
    unfolding c by simp
  moreover have "bytes_u64 (take 8 (drop 8 ?c)) = of_nat (length ?h)"
    unfolding c by simp
  moreover have "take (length ?h) (drop 16 ?c) = ?h"
    unfolding c by simp
  moreover have "bytes_u64 (take 8 (drop (16 + length ?h) ?c)) = of_nat (length ?t)"
    unfolding c by simp
  moreover have "drop (24 + length ?h + 16 * length ?t) ?c = ?p"
    unfolding c by simp
  moreover have "length ?c = 24 + length ?h + 16 * length ?t + length ?p"
    unfolding c by simp
  ultimately show ?thesis
    using d(1-3) pairs by blast
qed


theorem container_layout_witness:
  "handle_compression example_env (example_fs [(''in'', example_asset)]) ''in'' ''out'' 10 =
     (Inr (), write_file (example_fs [(''in'', example_asset)]) ''out'' example_kang)
   \<and> take 8 example_kang = KANG_SIGNATURE
   \<and> bytes_u64 (take 8 (drop 8 example_kang)) = 3
   \<and> take 3 (drop 16 example_kang) = [10, 0x7B, 0x7D]
   \<and> bytes_u64 (take 8 (drop (16 + 3) example_kang)) = 3
   \<and> (0::nat) < length [(2::u64, 3::u64), (2, 3), (1, 2)]
   \<and> bytes_u64 (take 8 (drop (24 + 3 + 16 * 0) example_kang)) = 2
   \<and> bytes_u64 (take 8 (drop (32 + 3 + 16 * 0) example_kang)) = 3
   \<and> drop (24 + 3 + 16 * 3) example_kang = [10, 1, 2, 10, 3, 4, 10, 5]
   \<and> length example_kang = 24 + 3 + 16 * 3 + 8"
proof -
  let ?fs = "example_fs [(''in'', example_asset)]"
  let ?r = "\<lparr>compressed_header = [10, 0x7B, 0x7D],
            compressed_tensors = [10, 1, 2, 10, 3, 4, 10, 5],
            chunk_info = [(2::u64, 3::u64), (2, 3), (1, 2)]\<rparr>"
  from container_layout [OF example_compression]
  obtain file_buffer json_header tensor_data r c where
    w: "readable ?fs ''in'' = Some file_buffer"
      "split_safetensors file_buffer = Inr (json_header, tensor_data)"
      "compress_safetensor example_env json_header tensor_data 10 = Some r"
      "readable (write_file ?fs ''out'' example_kang) ''out'' = Some c"
      "take 8 c = KANG_SIGNATURE"
      "bytes_u64 (take 8 (drop 8 c)) = of_nat (length (compressed_header r))"
      "take (length (compressed_header r)) (drop 16 c) = compressed_header r"
      "bytes_u64 (take 8 (drop (16 + length (compressed_header r)) c))
         = of_nat (length (chunk_info r))"
      "\<forall>i < length (chunk_info r).
         bytes_u64 (take 8 (drop (24 + length (compressed_header r) + 16 * i) c))
           = fst (chunk_info r ! i)
       \<and> bytes_u64 (take 8 (drop (32 + length (compressed_header r) + 16 * i) c))
           = snd (chunk_info r ! i)"
      "drop (24 + length (compressed_header r) + 16 * length (chunk_info r)) c
         = compressed_tensors r"
      "length c = 24 + length (compressed_header r) + 16 * length (chunk_info r)
         + length (compressed_tensors r)"
    by blast
  from w(1) have "file_buffer = example_asset" by simp
  with w(2) have "json_header = [0x7B, 0x7D]" "tensor_data = [1, 2, 3, 4, 5]"
    by (simp_all add: example_split)
  with w(3) have r: "r = ?r"
    by (simp add: example_compress)
  from w(4) have c: "c = example_kang" by simp
  from w(9) have "bytes_u64 (take 8 (drop (24 + length (compressed_header r) + 16 * 0) c))
           = fst (chunk_info r ! 0)
       \<and> bytes_u64 (take 8 (drop (32 + length (compressed_header r) + 16 * 0) c))
           = snd (chunk_info r ! 0)"
    unfolding r by (drule_tac x = 0 in spec) simp
  with w(5-8,10,11) show ?thesis
    unfolding r c by (simp add: example_compression numeral_3_eq_3)
qed

section \<open>The command line\<close>

text \<open>
  C8 says that a level outside 1--19 is rejected before it reaches the compressor, and the
  usage text of the program announces the range 1--19. The run below is the invocation
  \<^verbatim>\<open>kang compress -l 25 in out\<close>: \<^verbatim>\<open>std::stoi\<close> accepts the text, no range test
  follows, and the engine is called with level 25 (the stored codec of the example
  records the level it is given in each block, and the blocks of the written container
  carry 25). The invocation ends with status 0.
\<close>

theorem level_not_range_checked:
  "stoi ''25'' = Some 25
   \<and> parse_options [''compress'', ''-l'', ''25'', ''in'', ''out''] = Inr (25, 3)
   \<and> compress_safetensor example_env [0x7B, 0x7D] [1, 2, 3, 4, 5] 25 =
       Some \<lparr>compressed_header = [25, 0x7B, 0x7D],
             compressed_tensors = [25, 1, 2, 25, 3, 4, 25, 5],
             chunk_info = [(2, 3), (2, 3), (1, 2)]\<rparr>
   \<and> main example_env (example_fs [(''in'', example_asset)])
         [''compress'', ''-l'', ''25'', ''in'', ''out''] =
       (Returned 0,
        write_file (example_fs [(''in'', example_asset)]) ''out''
          (write_kang \<lparr>compressed_header = [25, 0x7B, 0x7D],
                       compressed_tensors = [25, 1, 2, 25, 3, 4, 25, 5],
                       chunk_info = [(2, 3), (2, 3), (1, 2)]\<rparr>))"
proof -
  have len: "length example_asset \<le> 2 ^ 63 - 1"
    by (simp add: example_asset_def)
  have opts: "parse_options [''compress'', ''-l'', ''25'', ''in'', ''out''] = Inr (25, 3)"
    by (simp add: parse_options_def stoi_25)
  have run: "handle_compression example_env (example_fs [(''in'', example_asset)]) ''in'' ''out'' 25 =
      (Inr (), write_file (example_fs [(''in'', example_asset)]) ''out''
          (write_kang \<lparr>compressed_header = [25, 0x7B, 0x7D],
                       compressed_tensors = [25, 1, 2, 25, 3, 4, 25, 5],
                       chunk_info = [(2, 3), (2, 3), (1, 2)]\<rparr>))"
    using len
    by (simp add: handle_compression_def read_all_def example_split example_compress_level)
  have "main example_env (example_fs [(''in'', example_asset)])
         [''compress'', ''-l'', ''25'', ''in'', ''out''] =
       finish (after_handler
         (handle_compression example_env (example_fs [(''in'', example_asset)]) ''in'' ''out'' 25))"
    by (simp add: main_def opts status_example_fs Let_def)
  then show ?thesis
    by (simp add: stoi_25 opts run example_compress_level finish_def after_handler_def)
qed

text \<open>
  C3 as stated does not hold. Decompressing a single three-byte file fails with the
  invalid-signature error, and \<^verbatim>\<open>main\<close> returns 0.
\<close>

theorem failed_single_file_exits_zero:
  "fst (handle_decompression example_env (example_fs [(''in'', [1, 2, 3])]) ''in'' ''out'')
     = Inl InvalidSignature
   \<and> fst (main example_env (example_fs [(''in'', [1, 2, 3])]) [''decompress'', ''in'', ''out''])
     = Returned 0"
proof -
  have h: "handle_decompression example_env (example_fs [(''in'', [1, 2, 3])]) ''in'' ''out''
      = (Inl InvalidSignature, example_fs [(''in'', [1, 2, 3])])"
    by (simp add: handle_decompression_def parse_kang_unfold)
  have "parse_options [''decompress'', ''in'', ''out''] = Inr (10, 1)"
    by (simp add: parse_options_def)
  then show ?thesis
    by (simp add: main_def status_example_fs Let_def h finish_def after_handler_def)
qed

text \<open>
  C3, amended. The handlers return \<^verbatim>\<open>void\<close> and \<^verbatim>\<open>main\<close> returns 0 after them. So a
  single-file compress or decompress invocation in which the handler reports a failure
  (unreadable input, invalid input format, bad signature, truncated container, engine
  failure, output that cannot be created) exits with status 0; the process ends
  abnormally only when an exception escapes the handler.
\<close>

theorem single_file_exit_status:
  assumes "2 \<le> length args"
    and "parse_options args = Inr (level, i)"
    and "i + 2 \<le> length args"
    and "status fs (args ! i) = Some Regular"
    and "args ! 0 = ''compress'' \<or> args ! 0 = ''decompress''"
    and "r = (if args ! 0 = ''compress''
              then handle_compression env fs (args ! i) (args ! (i + 1)) level
              else handle_decompression env fs (args ! i) (args ! (i + 1)))"
    and "fst r = Inl e"
  shows "main env fs args = (if uncaught e then Terminated else Returned 0, snd r)"
  using assms
  by (auto simp: main_def Let_def finish_def after_handler_def)

theorem single_file_exit_status_witness:
  "(2::nat) \<le> length [''decompress'', ''in'', ''out'']
   \<and> parse_options [''decompress'', ''in'', ''out''] = Inr (10, 1)
   \<and> status (example_fs [(''in'', [1, 2, 3])]) ''in'' = Some Regular
   \<and> handle_decompression example_env (example_fs [(''in'', [1, 2, 3])]) ''in'' ''out''
       = (Inl InvalidSignature, example_fs [(''in'', [1, 2, 3])])
   \<and> main example_env (example_fs [(''in'', [1, 2, 3])]) [''decompress'', ''in'', ''out'']
       = (Returned 0, example_fs [(''in'', [1, 2, 3])])"
proof -
  let ?fs = "example_fs [(''in'', [1, 2, 3])]"
  have h: "handle_decompression example_env ?fs ''in'' ''out'' = (Inl InvalidSignature, ?fs)"
    by (simp add: handle_decompression_def parse_kang_unfold)
  have o: "parse_options [''decompress'', ''in'', ''out''] = Inr (10, 1)"
    by (simp add: parse_options_def)
  have s: "status ?fs ''in'' = Some Regular"
    by (simp add: status_example_fs)
  from single_file_exit_status [of "[''decompress'', ''in'', ''out'']" 10 1 ?fs
      "handle_decompression example_env ?fs ''in'' ''out''" example_env InvalidSignature]
  show ?thesis
    by (simp add: h o s)
qed

section \<open>Malformed and truncated containers\<close>

text \<open>
  C2 as stated does not hold. First stream: the signature and a header length of
  \<open>2\<^sup>6\<^sup>3\<close>, nothing after it. The stream is truncated, but the program constructs the
  vector for the declared length before it looks at the stream, and the outcome is the
  uncaught allocation exception, not a format error. Second stream: an empty header and
  one chunk declared with 100 compressed bytes, nothing after the table. The declared
  sizes exceed the remaining stream length (0), and parsing succeeds.
\<close>

theorem oversized_or_inconsistent_sizes_not_format_errors:
  "parse_kang example_env (KANG_SIGNATURE @ u64_bytes (2 ^ 63)) = Inl UncaughtAllocation
   \<and> \<not> format_error UncaughtAllocation
   \<and> parse_kang example_env
         (KANG_SIGNATURE @ u64_bytes 0 @ u64_bytes 1 @ u64_bytes 5 @ u64_bytes 100)
       = Inr ([], [], [(5, 100)])"
proof -
  have a: "parse_kang example_env (KANG_SIGNATURE @ u64_bytes (2 ^ 63)) = Inl UncaughtAllocation"
    by (simp add: parse_kang_unfold Let_def)
  have "parse_kang example_env
         (KANG_SIGNATURE @ u64_bytes (of_nat (length ([] :: bytes))) @ []
            @ u64_bytes (of_nat (length [(5 :: u64, 100 :: u64)]))
            @ write_chunk_info [] [(5, 100)] @ [])
       = Inr ([], [], [(5, 100)])"
    by (subst parse_kang_written) simp_all
  then have b: "parse_kang example_env
         (KANG_SIGNATURE @ u64_bytes 0 @ u64_bytes 1 @ u64_bytes 5 @ u64_bytes 100)
       = Inr ([], [], [(5, 100)])"
    by (simp add: write_chunk_info_Cons)
  from a b show ?thesis by simp
qed

text \<open>
  C2, amended. For a stream that parses as a container: cut off before the payload
  (inside the signature, a length field, the compressed header or the chunk table), it
  fails to parse with a format error; cut off inside the payload, it parses, with the
  same chunk table and the shorter payload, since the parser does not compare the declared
  chunk sizes with the remaining stream length; and the declared header length is not
  compared with the stream before its buffer is allocated, so where that length cannot be
  allocated the outcome is the allocation exception even if the stream ends right after
  the length field.
\<close>

theorem truncated_stream_parsing:
  assumes "parse_kang env content = Inr (h, p, t)"
  shows "(n < 24 + length h + 16 * length t \<longrightarrow>
            (\<exists>e. parse_kang env (take n content) = Inl e \<and> format_error e))
       \<and> (24 + length h + 16 * length t \<le> n \<and> n < length content \<longrightarrow>
            parse_kang env (take n content) =
              Inr (h, take (n - (24 + length h + 16 * length t)) p, t))
       \<and> (max_alloc env' < length h \<longrightarrow>
            parse_kang env' (take 16 content) = Inl UncaughtAllocation)"
proof -
  note d = parse_kang_InrD [OF assms]
  have len: "length content = 24 + length h + 16 * length t + length p"
    by (subst d(1)) simp
  have a: "\<exists>e. parse_kang env (take n content) = Inl e \<and> format_error e"
    if "n < 24 + length h + 16 * length t"
  proof -
    from that len have "n < length content" by simp
    from parse_kang_truncated [OF assms this] that show ?thesis by auto
  qed
  have b: "parse_kang env (take n content) =
      Inr (h, take (n - (24 + length h + 16 * length t)) p, t)"
    if "24 + length h + 16 * length t \<le> n" "n < length content"
    using parse_kang_truncated [OF assms that(2)] that(1) by simp
  have c: "parse_kang env' (take 16 content) = Inl UncaughtAllocation"
    if "max_alloc env' < length h"
  proof -
    have "take 16 content = KANG_SIGNATURE @ u64_bytes (of_nat (length h))"
      by (subst d(1)) simp
    then show ?thesis
      using that d(2) by (simp add: parse_kang_unfold Let_def unat_of_nat_u64)
  qed
  from a b c show ?thesis by blast
qed

theorem truncated_stream_parsing_witness:
  "parse_kang example_env example_kang =
     Inr ([10, 0x7B, 0x7D], [10, 1, 2, 10, 3, 4, 10, 5], [(2, 3), (2, 3), (1, 2)])
   \<and> (17::nat) < 24 + 3 + 16 * 3
   \<and> parse_kang example_env (take 17 example_kang) = Inl ErrorReadingCompressedHeader
   \<and> (24::nat) + 3 + 16 * 3 \<le> 80 \<and> 80 < length example_kang
   \<and> parse_kang example_env (take 80 example_kang) =
       Inr ([10, 0x7B, 0x7D], [10, 1, 2, 10, 3], [(2, 3), (2, 3), (1, 2)])
   \<and> max_alloc small_env < 3
   \<and> parse_kang small_env (take 16 example_kang) = Inl UncaughtAllocation"
proof -
  have l: "length example_kang = 83"
    by (simp add: example_kang_def)
  have m: "max_alloc small_env = 2"
    by (simp add: small_env_def spec_environment_def)
  have e: "parse_kang example_env (take 17 example_kang) = Inl ErrorReadingCompressedHeader"
    using parse_kang_truncated [OF example_parse, of 17] by (simp add: l)
  from truncated_stream_parsing [OF example_parse, of 17 small_env]
    truncated_stream_parsing [OF example_parse, of 80 small_env]
  show ?thesis
    by (simp add: l m e example_parse)
qed







lemma takeWhile_framed: "takeWhile (\<lambda>x. x = 1) (replicate n (1 :: byte) @ 0 # b) = replicate n 1"
  by (induction n) simp_all

lemma framed_codec_lossless: "encode framed_codec level b = Some c \<Longrightarrow> decode framed_codec c = Some b"
  by (auto simp: framed_codec_def framed_encode_def framed_decode_def takeWhile_framed)

lemma filling_codec_lossless: "encode filling_codec level b = Some c \<Longrightarrow> decode filling_codec c = Some b"
  by (auto simp: filling_codec_def framed_encode_def filling_decode_def takeWhile_framed)









lemma filling_env_simps [simp]:
  "max_alloc filling_env = 2 ^ 63 - 1"
  "compress_safetensor filling_env = spec_compress_safetensor filling_codec 2"
  "decompress_kang filling_env = spec_decompress_kang filling_codec"
  by (simp_all add: filling_env_def spec_environment_def)

lemma framed_env_simps [simp]:
  "max_alloc framed_env = 2 ^ 63 - 1"
  "compress_safetensor framed_env = spec_compress_safetensor framed_codec 2"
  "decompress_kang framed_env = spec_decompress_kang framed_codec"
  by (simp_all add: framed_env_def spec_environment_def)



section \<open>Round trip\<close>

lemma plan_chunks_cover:
  "0 < chunk_size \<Longrightarrow> offset + remaining \<le> length payload \<Longrightarrow>
   concat (map (\<lambda>(off, len). take len (drop off payload)) (plan_chunks chunk_size offset remaining))
     = take remaining (drop offset payload)"
proof (induction chunk_size offset remaining rule: plan_chunks.induct)
  case (1 chunk_size offset remaining)
  show ?case
  proof (cases "remaining = 0")
    case True
    then show ?thesis by simp
  next
    case False
    define len where "len = min chunk_size remaining"
    have le: "len \<le> remaining" by (simp add: len_def)
    have IH: "concat (map (\<lambda>(off, len). take len (drop off payload))
                 (plan_chunks chunk_size (offset + len) (remaining - len)))
              = take (remaining - len) (drop (offset + len) payload)"
      using "1.IH" [of len] "1.prems" False le by (simp add: len_def)
    have "take remaining (drop offset payload)
        = take len (drop offset payload) @ take (remaining - len) (drop (offset + len) payload)"
      using take_add [of len "remaining - len" "drop offset payload"] le
      by (simp add: add.commute)
    with IH show ?thesis
      using False "1.prems"(1)
      by (subst plan_chunks.simps) (simp add: Let_def len_def)
  qed
qed

lemma plan_chunks_bounds:
  "0 < chunk_size \<Longrightarrow> (off, len) \<in> set (plan_chunks chunk_size offset remaining) \<Longrightarrow>
     off + len \<le> offset + remaining"
proof (induction chunk_size offset remaining rule: plan_chunks.induct)
  case (1 chunk_size offset remaining)
  show ?case
  proof (cases "remaining = 0")
    case True
    with "1.prems" show ?thesis by simp
  next
    case False
    define l where "l = min chunk_size remaining"
    have le: "l \<le> remaining" by (simp add: l_def)
    from "1.prems"(2) False "1.prems"(1)
    have "(off, len) = (offset, l) \<or> (off, len) \<in> set (plan_chunks chunk_size (offset + l) (remaining - l))"
      by (subst (asm) plan_chunks.simps) (simp add: Let_def l_def)
    then show ?thesis
    proof
      assume "(off, len) = (offset, l)"
      with le show ?thesis by simp
    next
      assume "(off, len) \<in> set (plan_chunks chunk_size (offset + l) (remaining - l))"
      from "1.IH" [of l, OF _ _ "1.prems"(1) this] False "1.prems"(1) le
      show ?thesis by (simp add: l_def)
    qed
  qed
qed

lemma chunks_inverse:
  assumes lossless: "\<And>b c. encode cd level b = Some c \<Longrightarrow> decode cd c = Some b"
  shows "compress_chunks cd level payload plan = Some (table, out) \<Longrightarrow>
         (\<And>off len. (off, len) \<in> set plan \<Longrightarrow> off + len \<le> length payload) \<Longrightarrow>
         length payload < 2 ^ 64 \<Longrightarrow> length out < 2 ^ 64 \<Longrightarrow>
           decompress_chunks cd table out
             = Inr (concat (map (\<lambda>(off, len). take len (drop off payload)) plan))"
proof (induction plan arbitrary: table out)
  case Nil
  then show ?case by simp
next
  case (Cons x plan)
  obtain off len where x: "x = (off, len)" by (cases x)
  from Cons.prems(1) obtain c table' out' where
    c: "encode cd level (take len (drop off payload)) = Some c"
    and rest: "compress_chunks cd level payload plan = Some (table', out')"
    and table: "table = (of_nat len, of_nat (length c)) # table'"
    and out: "out = c @ out'"
    by (auto simp: x split: option.splits)
  have bound: "off + len \<le> length payload"
    using Cons.prems(2) [of off len] by (simp add: x)
  with Cons.prems(3) have len: "unat (of_nat len :: u64) = len"
    by (simp add: unat_of_nat_u64)
  from Cons.prems(4) out have lc: "unat (of_nat (length c) :: u64) = length c"
    and lo: "length out' < 2 ^ 64"
    by (simp_all add: unat_of_nat_u64)
  have IH: "decompress_chunks cd table' out'
             = Inr (concat (map (\<lambda>(off, len). take len (drop off payload)) plan))"
    using Cons.IH [OF rest _ Cons.prems(3) lo] Cons.prems(2) by simp
  have dec: "decode cd c = Some (take len (drop off payload))"
    by (rule lossless [OF c])
  have "length (take len (drop off payload)) = len"
    using bound by simp
  with IH dec show ?case
    by (simp add: table out x len lc)
qed

lemma spec_engine_inverse:
  assumes lossless: "\<And>b c. encode cd level b = Some c \<Longrightarrow> decode cd c = Some b"
    and "0 < chunk_size"
    and "spec_compress_safetensor cd chunk_size M T level = Some r"
    and "length T < 2 ^ 64" and "length (compressed_tensors r) < 2 ^ 64"
  shows "spec_decompress_kang cd (compressed_header r) (compressed_tensors r) (chunk_info r)
           = Some (M, T)"
proof -
  let ?plan = "plan_chunks chunk_size 0 (length T)"
  from assms(3) obtain h table out where
    h: "encode cd level M = Some h"
    and ch: "compress_chunks cd level T ?plan = Some (table, out)"
    and r: "r = \<lparr>compressed_header = h, compressed_tensors = out, chunk_info = table\<rparr>"
    by (auto simp: spec_compress_safetensor_def split: option.splits)
  have "off + len \<le> length T" if "(off, len) \<in> set ?plan" for off len
    using plan_chunks_bounds [OF assms(2) that] by simp
  from chunks_inverse [of cd level, OF lossless ch this assms(4)] assms(5)
  have "decompress_chunks cd table out
             = Inr (concat (map (\<lambda>(off, len). take len (drop off T)) ?plan))"
    by (simp add: r)
  moreover have "concat (map (\<lambda>(off, len). take len (drop off T)) ?plan) = T"
    using plan_chunks_cover [OF assms(2), of 0 "length T" T] by simp
  moreover have "decode cd h = Some M"
    by (rule lossless [OF h])
  ultimately show ?thesis
    by (simp add: spec_decompress_kang_def spec_decompress_kang_result_def r)
qed

lemma split_safetensors_framed:
  assumes "8 + length M + length T < 2 ^ 64"
  shows "split_safetensors (u64_bytes (of_nat (length M)) @ M @ T) = Inr (M, T)"
proof -
  let ?B = "u64_bytes (of_nat (length M)) @ M @ T"
  have M: "unat (of_nat (length M) :: u64) = length M"
    using assms by (simp add: unat_of_nat_u64)
  have h: "bytes_u64 (take 8 ?B) = of_nat (length M)"
    by simp
  have "\<not> header_size_mismatch ?B (of_nat (length M))"
    using assms by (simp add: header_size_mismatch_wraps M)
  moreover have "\<not> 8 + (of_nat (length M) :: u64) < 8"
    using assms by (simp add: plus8_wraps M)
  ultimately show ?thesis
    unfolding split_safetensors_def h Let_def by (simp add: M)
qed


text \<open>
  C1. Let the input file be a valid safetensors buffer: the 64-bit length of the metadata,
  the metadata \<open>M\<close>, the tensor bytes \<open>T\<close>. For every level from 1 to 19, if the
  compression of that file succeeds, then decompressing the container it wrote succeeds
  and writes the original buffer, byte for byte. The engine is the one modelled from the
  specification, over any codec that is lossless at the supported levels and any positive
  chunk size; the container is assumed to fit the buffers of the machine, whose sizes are
  below \<open>2\<^sup>6\<^sup>4\<close>.
\<close>

theorem compress_then_decompress_restores_file:
  assumes env: "env = spec_environment cd chunk_size limit"
    and chunk_size: "0 < chunk_size"
    and limit: "limit < 2 ^ 64"
    and lossless: "\<forall>l b c. 1 \<le> l \<and> l \<le> 19 \<and> encode cd l b = Some c \<longrightarrow> decode cd c = Some b"
    and level: "1 \<le> level" "level \<le> 19"
    and asset: "readable fs input_path = Some (u64_bytes (of_nat (length M)) @ M @ T)"
    and compressed: "handle_compression env fs input_path kang_path level = (Inr (), fs1)"
    and fits: "readable fs1 kang_path = Some c" "length c \<le> limit"
    and out: "creatable fs1 output_path"
  shows "\<exists>fs2. handle_decompression env fs1 kang_path output_path = (Inr (), fs2)
             \<and> readable fs2 output_path = Some (u64_bytes (of_nat (length M)) @ M @ T)"
proof -
  let ?B = "u64_bytes (of_nat (length M)) @ M @ T"
  have ml: "max_alloc env = limit"
    and ce: "compress_safetensor env = spec_compress_safetensor cd chunk_size"
    and de: "decompress_kang env = spec_decompress_kang cd"
    by (simp_all add: env spec_environment_def)
  from handle_compression_InrD [OF compressed] asset obtain json_header tensor_data r where
    sp: "split_safetensors ?B = Inr (json_header, tensor_data)"
    and r: "compress_safetensor env json_header tensor_data level = Some r"
    and fs1: "fs1 = write_file fs input_path' (write_kang r)" if "input_path' = kang_path" for input_path'
    by auto
  from compressed asset have "length ?B \<le> limit"
    by (auto simp: handle_compression_def read_all_def ml split: if_splits)
  with limit have B: "8 + length M + length T < 2 ^ 64"
    by simp
  from sp split_safetensors_framed [OF B] have jt: "json_header = M" "tensor_data = T"
    by simp_all
  from fits(1) fs1 [OF refl] have c: "c = write_kang r"
    by simp
  let ?h = "compressed_header r" and ?t = "chunk_info r" and ?p = "compressed_tensors r"
  have len: "length c = 24 + length ?h + 16 * length ?t + length ?p"
    unfolding c write_kang_layout by simp
  with fits(2) limit have small: "length ?h < 2 ^ 64" "length ?t < 2 ^ 64" "length ?p < 2 ^ 64"
    and alloc: "\<not> (limit < length ?h \<or> limit < 16 * length ?t \<or> limit < length ?p)"
    by simp_all
  have parsed: "parse_kang env c = Inr (?h, ?p, ?t)"
    unfolding c write_kang_layout
    using parse_kang_written [OF small(1,2), of env ?p] alloc by (simp add: ml)
  have codec: "decode cd c' = Some b" if "encode cd level b = Some c'" for b c'
    using lossless level that by blast
  from r have "spec_compress_safetensor cd chunk_size M T level = Some r"
    by (simp add: ce jt)
  from spec_engine_inverse [of cd level, OF codec chunk_size this _ small(3)] B
  have "decompress_kang env ?h ?p ?t = Some (M, T)"
    by (simp add: de)
  with parsed fits(1) out
  have "handle_decompression env fs1 kang_path output_path =
      (Inr (), write_file fs1 output_path (write_safetensors M T))"
    by (simp add: handle_decompression_def)
  then show ?thesis
    by (simp add: write_safetensors_layout)
qed

theorem compress_then_decompress_restores_file_witness:
  "example_env = spec_environment stored_codec 2 (2 ^ 63 - 1)
   \<and> (0::nat) < 2 \<and> (2::nat) ^ 63 - 1 < 2 ^ 64
   \<and> encode stored_codec 10 [1, 2] = Some [10, 1, 2] \<and> decode stored_codec [10, 1, 2] = Some [1, 2]
   \<and> (1::int) \<le> 10 \<and> (10::int) \<le> 19
   \<and> readable (example_fs [(''in'', example_asset)]) ''in''
       = Some (u64_bytes (of_nat (length [0x7B, 0x7D :: byte])) @ [0x7B, 0x7D] @ [1, 2, 3, 4, 5])
   \<and> handle_compression example_env (example_fs [(''in'', example_asset)]) ''in'' ''out'' 10
       = (Inr (), write_file (example_fs [(''in'', example_asset)]) ''out'' example_kang)
   \<and> readable (write_file (example_fs [(''in'', example_asset)]) ''out'' example_kang) ''out''
       = Some example_kang
   \<and> length example_kang \<le> 2 ^ 63 - 1
   \<and> creatable (write_file (example_fs [(''in'', example_asset)]) ''out'' example_kang) ''back''
   \<and> (\<exists>fs2. handle_decompression example_env
                (write_file (example_fs [(''in'', example_asset)]) ''out'' example_kang) ''out'' ''back''
              = (Inr (), fs2)
            \<and> readable fs2 ''back'' = Some example_asset)"
proof -
  let ?fs = "example_fs [(''in'', example_asset)]"
  let ?fs1 = "write_file ?fs ''out'' example_kang"
  have codec: "\<forall>l b c. 1 \<le> l \<and> l \<le> 19 \<and> encode stored_codec l b = Some c
         \<longrightarrow> decode stored_codec c = Some b"
    by (auto simp: stored_codec_def stored_encode_def)
  have asset: "u64_bytes (of_nat (length [0x7B, 0x7D :: byte])) @ [0x7B, 0x7D] @ [1, 2, 3, 4, 5]
      = example_asset"
    by (simp add: u64_bytes_def le_bytes_numeral example_asset_def)
  have l: "length example_kang \<le> 2 ^ 63 - 1"
    by (simp add: example_kang_def)
  have env: "example_env = spec_environment stored_codec 2 (2 ^ 63 - 1)"
    by (simp add: example_env_def)
  have input: "readable ?fs ''in''
      = Some (u64_bytes (of_nat (length [0x7B, 0x7D :: byte])) @ [0x7B, 0x7D] @ [1, 2, 3, 4, 5])"
    unfolding asset by simp
  have kang: "readable ?fs1 ''out'' = Some example_kang"
    by simp
  have target: "creatable ?fs1 ''back''"
    by simp
  have "\<exists>fs2. handle_decompression example_env ?fs1 ''out'' ''back'' = (Inr (), fs2)
            \<and> readable fs2 ''back''
                = Some (u64_bytes (of_nat (length [0x7B, 0x7D :: byte])) @ [0x7B, 0x7D] @ [1, 2, 3, 4, 5])"
    by (rule compress_then_decompress_restores_file [OF env _ _ codec _ _ input example_compression kang l target]) simp_all
  then have "\<exists>fs2. handle_decompression example_env ?fs1 ''out'' ''back'' = (Inr (), fs2)
            \<and> readable fs2 ''back'' = Some example_asset"
    unfolding asset .
  with env input kang l target show ?thesis
    unfolding asset by (simp add: example_compression stored_codec_def stored_encode_def)
qed

end
